theory Spec2Isabelle
  imports Main
begin

section \<open>JavaScript strings and values\<close>

text \<open>
  The program is \<^verbatim>\<open>scripts/sync-meets.js\<close>. A JavaScript string is a sequence of
  UTF-16 code units; it is modelled as the list of their numbers, so every string
  the script can receive is a value of \<open>jsstring\<close>. \<open>js\<close> turns a literal of the
  theory into that representation.
\<close>

type_synonym jsstring = "nat list"

definition js :: "string \<Rightarrow> jsstring" where
  "js s = map of_char s"

text \<open>
  The values a field of the upstream listing can hold (it is decoded JSON), plus
  \<open>undefined\<close> for a missing property and \<open>JObject\<close> for any object, array or
  function, named by a label. Numbers pass through the script untouched; only
  integers are represented.
\<close>

datatype jsval =
    JUndefined
  | JNull
  | JBool bool
  | JNumber int
  | JString jsstring
  | JObject jsstring

fun truthy :: "jsval \<Rightarrow> bool" where
  "truthy JUndefined = False"
| "truthy JNull = False"
| "truthy (JBool b) = b"
| "truthy (JNumber n) = (n \<noteq> 0)"
| "truthy (JString s) = (s \<noteq> [])"
| "truthy (JObject l) = True"

text \<open>An exception raised inside a \<^verbatim>\<open>try\<close> block.\<close>

datatype js_error = TypeError | JsError jsstring

subsection \<open>Character classes of the regular expressions\<close>

text \<open>\<^verbatim>\<open>\s\<close>: the white space and line terminator code units of ECMAScript.\<close>

definition is_space :: "nat \<Rightarrow> bool" where
  "is_space c =
     (c \<in> {9, 10, 11, 12, 13, 32, 160, 5760, 8232, 8233, 8239, 8287, 12288, 65279}
      \<or> (8192 \<le> c \<and> c \<le> 8202))"

text \<open>\<^verbatim>\<open>\d\<close>: the digits 0 to 9.\<close>

definition is_digit :: "nat \<Rightarrow> bool" where
  "is_digit c = (48 \<le> c \<and> c \<le> 57)"

text \<open>
  The canonical form of a code unit under the flag \<^verbatim>\<open>i\<close> (without \<^verbatim>\<open>u\<close>): upper
  case, where a code unit outside ASCII is never mapped into ASCII. The patterns
  of the script are ASCII, so only the ASCII letters matter.
\<close>

definition canon :: "nat \<Rightarrow> nat" where
  "canon c = (if 97 \<le> c \<and> c \<le> 122 then c - 32 else c)"

definition starts_with :: "jsstring \<Rightarrow> jsstring \<Rightarrow> bool" where
  "starts_with p s = (take (length p) s = p)"

definition starts_with_ci :: "jsstring \<Rightarrow> jsstring \<Rightarrow> bool" where
  "starts_with_ci p s = (map canon (take (length p) s) = map canon p)"

subsection \<open>String operations\<close>

text \<open>
  \<^verbatim>\<open>s.split(sep)\<close> with a string separator: the pieces between the successive
  occurrences of \<open>sep\<close>, found left to right, the search resuming after each
  occurrence. The empty string gives one empty piece. With the empty separator
  the pieces are the single code units.
\<close>

function split_from :: "jsstring \<Rightarrow> jsstring \<Rightarrow> jsstring \<Rightarrow> jsstring list" where
  "split_from sep acc [] = [acc]"
| "split_from sep acc (c # cs) =
     (if sep \<noteq> [] \<and> starts_with sep (c # cs)
      then acc # split_from sep [] (drop (length sep) (c # cs))
      else split_from sep (acc @ [c]) cs)"
  by pat_completeness auto
termination
  by (relation "measure (\<lambda>(sep, acc, s). length s)") auto

definition split_js :: "jsstring \<Rightarrow> jsstring \<Rightarrow> jsstring list" where
  "split_js sep s = (if sep = [] then map (\<lambda>c. [c]) s else split_from sep [] s)"

text \<open>
  \<^verbatim>\<open>address.replace(/,\s*,/g, ',')\<close>: every match of a comma, any white space and a
  comma becomes one comma; the search resumes after the match. White space is
  never a comma, so the greedy star has one way to match.
\<close>

function collapse_commas :: "jsstring \<Rightarrow> jsstring" where
  "collapse_commas [] = []"
| "collapse_commas (c # cs) =
     (if c = 44 then
        (case dropWhile is_space cs of
           d # ds \<Rightarrow> if d = 44 then 44 # collapse_commas ds else c # collapse_commas cs
         | [] \<Rightarrow> c # collapse_commas cs)
      else c # collapse_commas cs)"
  by pat_completeness auto
termination
proof (relation "measure length")
  fix c :: nat and cs d ds
  assume "dropWhile is_space cs = d # ds"
  then have "length (d # ds) \<le> length cs"
    by (metis length_dropWhile_le)
  then show "(ds, c # cs) \<in> measure length" by simp
qed auto

text \<open>
  \<^verbatim>\<open>dateRange.replace(/\\\//g, '/')\<close>: every backslash followed by a slash becomes a
  slash.
\<close>

fun unescape_slashes :: "jsstring \<Rightarrow> jsstring" where
  "unescape_slashes (a # b # cs) =
     (if a = 92 \<and> b = 47 then 47 # unescape_slashes cs
      else a # unescape_slashes (b # cs))"
| "unescape_slashes cs = cs"

text \<open>\<^verbatim>\<open>s.includes(p)\<close>: \<open>p\<close> occurs in \<open>s\<close> at some position.\<close>

fun occurs :: "jsstring \<Rightarrow> jsstring \<Rightarrow> bool" where
  "occurs p [] = (p = [])"
| "occurs p (c # cs) = (starts_with p (c # cs) \<or> occurs p cs)"

text \<open>\<^verbatim>\<open>parts.findIndex(p)\<close>: the first index whose element satisfies \<open>p\<close>, or -1.\<close>

fun findIndex :: "('a \<Rightarrow> bool) \<Rightarrow> 'a list \<Rightarrow> int" where
  "findIndex p [] = - 1"
| "findIndex p (x # xs) =
     (if p x then 0 else (let i = findIndex p xs in if i < 0 then - 1 else i + 1))"

text \<open>\<^verbatim>\<open>/^\d/\<close> and \<^verbatim>\<open>/Suite|Unit|Apt|#/i\<close>, as \<^verbatim>\<open>match\<close> tests them.\<close>

definition starts_with_digit :: "jsstring \<Rightarrow> bool" where
  "starts_with_digit s = (case s of [] \<Rightarrow> False | c # cs \<Rightarrow> is_digit c)"

fun unit_designator :: "jsstring \<Rightarrow> bool" where
  "unit_designator [] = False"
| "unit_designator (c # cs) =
     (starts_with_ci (js ''Suite'') (c # cs) \<or> starts_with_ci (js ''Unit'') (c # cs)
      \<or> starts_with_ci (js ''Apt'') (c # cs) \<or> c = 35 \<or> unit_designator cs)"

section \<open>parseAddress\<close>

record parsed_address =
  venueName :: jsstring
  street :: jsval
  city :: jsstring
  state :: jsstring
  zip_field :: jsstring

text \<open>The object both fallback branches return; \<open>address\<close> is the variable's value there.\<close>

definition fallback_address :: "jsval \<Rightarrow> parsed_address" where
  "fallback_address address =
     \<lparr>venueName = [], street = address, city = js ''Unknown'',
      state = js ''Unknown'', zip_field = js ''Unknown''\<rparr>"

text \<open>
  The \<^verbatim>\<open>try\<close> block. A value that is not a string has no \<^verbatim>\<open>replace\<close> method: the
  first statement raises. On a string, \<open>address\<close> is reassigned to the collapsed
  string before anything else reads it. Every index read is in range: \<open>parts\<close>
  has at least 4 elements (at least 6 where index 3 is read).
\<close>

definition parseAddress_try :: "jsval \<Rightarrow> js_error + parsed_address" where
  "parseAddress_try v =
     (case v of
        JString a \<Rightarrow>
          (let address = collapse_commas a;
               parts = split_js (js '', '') address
           in if length parts \<ge> 4 then
                (let zip = parts ! (length parts - 1);
                     stateIndex = findIndex (\<lambda>part. part = js ''United States of America'') parts;
                     state = (if stateIndex > 0 then parts ! nat (stateIndex - 1)
                              else parts ! (length parts - 2))
                 in if \<not> starts_with_digit (parts ! 0) then
                      (if length parts \<ge> 6 then
                         (if unit_designator (parts ! 2) then
                            Inr \<lparr>venueName = parts ! 0,
                                 street = JString (parts ! 1 @ js '', '' @ parts ! 2),
                                 city = parts ! 3, state = state, zip_field = zip\<rparr>
                          else
                            Inr \<lparr>venueName = parts ! 0, street = JString (parts ! 1),
                                 city = parts ! 2, state = state, zip_field = zip\<rparr>)
                       else
                         Inr \<lparr>venueName = parts ! 0, street = JString (parts ! 1),
                              city = parts ! 2, state = state, zip_field = zip\<rparr>)
                    else
                      Inr \<lparr>venueName = [], street = JString (parts ! 0),
                           city = parts ! 1, state = state, zip_field = zip\<rparr>)
              else Inr (fallback_address (JString address)))
      | _ \<Rightarrow> Inl TypeError)"

text \<open>The \<^verbatim>\<open>catch\<close> block returns the fallback with the argument as it was passed.\<close>

definition parseAddress :: "jsval \<Rightarrow> parsed_address" where
  "parseAddress v =
     (case parseAddress_try v of Inr r \<Rightarrow> r | Inl e \<Rightarrow> fallback_address v)"

section \<open>parseDateRange\<close>

record date_range =
  startDate :: jsval
  endDate :: jsval

text \<open>
  A component inside the template literal: an index past the end reads
  \<^verbatim>\<open>undefined\<close>, which the template prints as the text \<^verbatim>\<open>undefined\<close>.
\<close>

definition component :: "jsstring list \<Rightarrow> nat \<Rightarrow> jsstring" where
  "component ps i = (if i < length ps then ps ! i else js ''undefined'')"

definition iso_date :: "jsstring list \<Rightarrow> jsstring" where
  "iso_date ps = component ps 2 @ js ''-'' @ component ps 0 @ js ''-'' @ component ps 1"

text \<open>
  The \<^verbatim>\<open>try\<close> block. \<open>dates\<close> always has a first element. \<^verbatim>\<open>dates[1]\<close> is falsy
  when it is missing and when it is the empty string.
\<close>

definition parseDateRange_try :: "jsval \<Rightarrow> js_error + date_range" where
  "parseDateRange_try v =
     (case v of
        JString dateRange \<Rightarrow>
          (let cleanDateRange = unescape_slashes dateRange;
               dates = split_js (js '' - '') cleanDateRange;
               startParts = split_js (js ''/'') (dates ! 0);
               endParts = (if 1 < length dates \<and> dates ! 1 \<noteq> []
                           then split_js (js ''/'') (dates ! 1) else startParts)
           in Inr \<lparr>startDate = JString (iso_date startParts),
                   endDate = JString (iso_date endParts)\<rparr>)
      | _ \<Rightarrow> Inl TypeError)"

definition parseDateRange :: "jsval \<Rightarrow> date_range" where
  "parseDateRange v =
     (case parseDateRange_try v of
        Inr r \<Rightarrow> r
      | Inl e \<Rightarrow> \<lparr>startDate = JNull, endDate = JNull\<rparr>)"

section \<open>mapTimeZone and getStateAbbreviation\<close>

definition timeZoneMap :: "(string \<times> string) list" where
  "timeZoneMap =
    [(''Alabama'', ''America/Chicago''), (''Alaska'', ''America/Anchorage''),
     (''Arizona'', ''America/Phoenix''), (''Arkansas'', ''America/Chicago''),
     (''California'', ''America/Los_Angeles''), (''Colorado'', ''America/Denver''),
     (''Connecticut'', ''America/New_York''), (''Delaware'', ''America/New_York''),
     (''Florida'', ''America/New_York''), (''Georgia'', ''America/New_York''),
     (''Hawaii'', ''Pacific/Honolulu''), (''Idaho'', ''America/Denver''),
     (''Illinois'', ''America/Chicago''), (''Indiana'', ''America/New_York''),
     (''Iowa'', ''America/Chicago''), (''Kansas'', ''America/Chicago''),
     (''Kentucky'', ''America/New_York''), (''Louisiana'', ''America/Chicago''),
     (''Maine'', ''America/New_York''), (''Maryland'', ''America/New_York''),
     (''Massachusetts'', ''America/New_York''), (''Michigan'', ''America/New_York''),
     (''Minnesota'', ''America/Chicago''), (''Mississippi'', ''America/Chicago''),
     (''Missouri'', ''America/Chicago''), (''Montana'', ''America/Denver''),
     (''Nebraska'', ''America/Chicago''), (''Nevada'', ''America/Los_Angeles''),
     (''New Hampshire'', ''America/New_York''), (''New Jersey'', ''America/New_York''),
     (''New Mexico'', ''America/Denver''), (''New York'', ''America/New_York''),
     (''North Carolina'', ''America/New_York''),
     (''North Dakota'', ''America/Chicago''), (''Ohio'', ''America/New_York''),
     (''Oklahoma'', ''America/Chicago''), (''Oregon'', ''America/Los_Angeles''),
     (''Pennsylvania'', ''America/New_York''),
     (''Rhode Island'', ''America/New_York''),
     (''South Carolina'', ''America/New_York''),
     (''South Dakota'', ''America/Chicago''), (''Tennessee'', ''America/Chicago''),
     (''Texas'', ''America/Chicago''), (''Utah'', ''America/Denver''),
     (''Vermont'', ''America/New_York''), (''Virginia'', ''America/New_York''),
     (''Washington'', ''America/Los_Angeles''),
     (''West Virginia'', ''America/New_York''), (''Wisconsin'', ''America/Chicago''),
     (''Wyoming'', ''America/Denver''),
     (''District of Columbia'', ''America/New_York'')]"

definition stateMap :: "(string \<times> string) list" where
  "stateMap =
    [(''Alabama'', ''AL''), (''Alaska'', ''AK''), (''Arizona'', ''AZ''),
     (''Arkansas'', ''AR''), (''California'', ''CA''), (''Colorado'', ''CO''),
     (''Connecticut'', ''CT''), (''Delaware'', ''DE''), (''Florida'', ''FL''),
     (''Georgia'', ''GA''), (''Hawaii'', ''HI''), (''Idaho'', ''ID''),
     (''Illinois'', ''IL''), (''Indiana'', ''IN''), (''Iowa'', ''IA''),
     (''Kansas'', ''KS''), (''Kentucky'', ''KY''), (''Louisiana'', ''LA''),
     (''Maine'', ''ME''), (''Maryland'', ''MD''), (''Massachusetts'', ''MA''),
     (''Michigan'', ''MI''), (''Minnesota'', ''MN''), (''Mississippi'', ''MS''),
     (''Missouri'', ''MO''), (''Montana'', ''MT''), (''Nebraska'', ''NE''),
     (''Nevada'', ''NV''), (''New Hampshire'', ''NH''), (''New Jersey'', ''NJ''),
     (''New Mexico'', ''NM''), (''New York'', ''NY''), (''North Carolina'', ''NC''),
     (''North Dakota'', ''ND''), (''Ohio'', ''OH''), (''Oklahoma'', ''OK''),
     (''Oregon'', ''OR''), (''Pennsylvania'', ''PA''), (''Rhode Island'', ''RI''),
     (''South Carolina'', ''SC''), (''South Dakota'', ''SD''), (''Tennessee'', ''TN''),
     (''Texas'', ''TX''), (''Utah'', ''UT''), (''Vermont'', ''VT''),
     (''Virginia'', ''VA''), (''Washington'', ''WA''), (''West Virginia'', ''WV''),
     (''Wisconsin'', ''WI''), (''Wyoming'', ''WY''),
     (''District of Columbia'', ''DC'')]"

text \<open>
  Both tables are object literals, so a lookup \<^verbatim>\<open>table[key]\<close> that finds no own
  property goes on to \<^verbatim>\<open>Object.prototype\<close>. These are its property names; each holds
  a function (or, for \<^verbatim>\<open>__proto__\<close>, the prototype object itself).
\<close>

definition object_prototype_names :: "string list" where
  "object_prototype_names =
    [''constructor'', ''__defineGetter__'', ''__defineSetter__'', ''hasOwnProperty'',
     ''__lookupGetter__'', ''__lookupSetter__'', ''isPrototypeOf'',
     ''propertyIsEnumerable'', ''toString'', ''valueOf'', ''__proto__'',
     ''toLocaleString'']"

definition get_property :: "(string \<times> string) list \<Rightarrow> jsstring \<Rightarrow> jsval" where
  "get_property table key =
     (case map_of (map (\<lambda>(k, v). (js k, js v)) table) key of
        Some v \<Rightarrow> JString v
      | None \<Rightarrow>
          if key \<in> set (map js object_prototype_names) then JObject key else JUndefined)"

definition mapTimeZone :: "jsstring \<Rightarrow> jsval" where
  "mapTimeZone stateName =
     (let found = get_property timeZoneMap stateName
      in if truthy found then found else JString (js ''America/New_York''))"

definition getStateAbbreviation :: "jsstring \<Rightarrow> jsval" where
  "getStateAbbreviation stateName =
     (let found = get_property stateMap stateName
      in if truthy found then found else JString stateName)"

section \<open>transformMeetsData\<close>

text \<open>One element of the upstream collection that is an object; a missing field is
  \<open>JUndefined\<close>.\<close>

record raw_listing =
  listing_id :: jsval
  listing_name :: jsval
  address :: jsval
  subtitle :: jsval

text \<open>The row submitted to the store, and the transformed meet, which carries
  \<open>external_id\<close> besides.\<close>

record meet_row =
  name :: jsval
  venue_name :: jsval
  venue_street :: jsval
  venue_city :: jsstring
  venue_state :: jsval
  venue_zip :: jsstring
  time_zone :: jsval
  start_date :: jsval
  end_date :: jsval
  status :: jsstring

record meet = meet_row +
  external_id :: jsval

text \<open>The callback of \<^verbatim>\<open>meetsData.map\<close>. \<^verbatim>\<open>venueName || meet.name\<close> is the listing's
  name when the parsed venue name is the empty string.\<close>

definition transformMeet :: "raw_listing \<Rightarrow> meet" where
  "transformMeet m =
     (let parsed = parseAddress (address m);
          dates = parseDateRange (subtitle m);
          timeZone = mapTimeZone (state parsed);
          stateAbbreviation = getStateAbbreviation (state parsed);
          finalVenueName =
            (if venueName parsed \<noteq> [] then JString (venueName parsed) else listing_name m)
      in \<lparr>name = listing_name m,
          venue_name = finalVenueName,
          venue_street = street parsed,
          venue_city = city parsed,
          venue_state = stateAbbreviation,
          venue_zip = zip_field parsed,
          time_zone = timeZone,
          start_date = startDate dates,
          end_date = endDate dates,
          status = js ''upcoming'',
          external_id = listing_id m\<rparr>)"

text \<open>
  An element of the collection is \<^verbatim>\<open>null\<close> (\<open>None\<close>), on which reading
  \<^verbatim>\<open>meet.address\<close> raises, the exception leaving \<^verbatim>\<open>map\<close>; or it is any other
  value (\<open>Some\<close>): an object with its fields, or a number, string or boolean, which
  reads as a listing whose four fields are missing.
\<close>

fun map_listings :: "raw_listing option list \<Rightarrow> js_error + meet list" where
  "map_listings [] = Inr []"
| "map_listings (None # ms) = Inl TypeError"
| "map_listings (Some m # ms) =
     (case map_listings ms of Inl e \<Rightarrow> Inl e | Inr rs \<Rightarrow> Inr (transformMeet m # rs))"

definition transformMeetsData :: "raw_listing option list \<Rightarrow> js_error + meet list" where
  "transformMeetsData meetsData =
     (case map_listings meetsData of
        Inl e \<Rightarrow> Inl e
      | Inr rs \<Rightarrow>
          Inr (filter (\<lambda>meet. truthy (start_date meet) \<and> truthy (end_date meet)) rs))"

section \<open>The world the script runs in\<close>

text \<open>
  What \<^verbatim>\<open>fetchMeets\<close> returns, as far as \<^verbatim>\<open>syncMeets\<close> looks at it: an array of
  elements, or any other value, given by the two tests made on it (whether it is
  truthy, whether its \<^verbatim>\<open>length\<close> is 0). A value that is not an array has no
  \<^verbatim>\<open>map\<close> method.
\<close>

datatype payload = Listings "raw_listing option list" | Other bool bool

text \<open>
  The outcome of one \<^verbatim>\<open>axios.get\<close>: the promise is rejected (a transport error, or
  a status outside 2xx), or a response arrives with a status and a body. The body
  is a string, given by what \<^verbatim>\<open>JSON.parse(response.data).data\<close> evaluates to
  (\<open>None\<close> when that raises), or it is not a string, given by what
  \<^verbatim>\<open>response.data.data\<close> evaluates to (\<open>None\<close> when that raises).
\<close>

datatype body = StringBody "payload option" | ObjectBody "payload option"

datatype response = Rejected | Response nat body

text \<open>The lines written to the console by the orchestration, by their call site.\<close>

datatype message =
    Fetching
  | JsonParseError
  | FetchError js_error
  | ExistsQueryError jsval
  | MeetIsNew jsval jsval
  | NoMeetsData
  | Fetched payload
  | Processed nat
  | AlreadyExists jsval
  | InsertError jsval
  | Inserted jsval
  | SyncCompleted nat nat nat
  | SyncError js_error

text \<open>
  The trace of a run: the request to the upstream endpoint, the requests to the
  store, the timers awaited, and the console lines above, in order. The
  diagnostics of the two parsers and the backoff of \<^verbatim>\<open>retry\<close> (which it returns
  apart) are not recorded in it.
\<close>

datatype event =
    HttpGet
  | Select jsval
  | Insert meet_row
  | Timer nat
  | Log message
  | LogError message

text \<open>
  Modelled from the spec: the persistent store behind the client of
  \<^verbatim>\<open>@supabase/supabase-js\<close>, which is no code of the repository. It holds rows with
  a uniqueness constraint on \<open>name\<close> (section 6 of the specification; the table
  of the README has \<^verbatim>\<open>constraint meets_name_key unique (name)\<close>). A request can
  fail for a reason of the store's own (connectivity, another constraint of the
  schema): \<open>query_faults\<close> and \<open>insert_faults\<close> say, for the coming requests of
  each kind in order, whether the request fails; past their end no request fails
  for such a reason.
\<close>

record store =
  rows :: "meet_row list"
  query_faults :: "bool list"
  insert_faults :: "bool list"

text \<open>The pair \<^verbatim>\<open>{ data, error }\<close> a request resolves to.\<close>

datatype 'a reply = Failure | Data 'a

definition next_fault :: "bool list \<Rightarrow> bool \<times> bool list" where
  "next_fault fs = (case fs of [] \<Rightarrow> (False, []) | f # rest \<Rightarrow> (f, rest))"

text \<open>\<^verbatim>\<open>from('meets').select('id').eq('name', n).limit(1)\<close>\<close>

definition select_by_name :: "jsval \<Rightarrow> store \<Rightarrow> meet_row list reply \<times> store" where
  "select_by_name n s =
     (let (fault, rest) = next_fault (query_faults s);
          s' = s\<lparr>query_faults := rest\<rparr>
      in if fault then (Failure, s')
         else (Data (take 1 (filter (\<lambda>r. name r = n) (rows s))), s'))"

text \<open>\<^verbatim>\<open>from('meets').insert([row])\<close>\<close>

definition insert_row :: "meet_row \<Rightarrow> store \<Rightarrow> unit reply \<times> store" where
  "insert_row row s =
     (let (fault, rest) = next_fault (insert_faults s);
          s' = s\<lparr>insert_faults := rest\<rparr>
      in if fault \<or> name row \<in> set (map name (rows s)) then (Failure, s')
         else (Data (), s'\<lparr>rows := rows s @ [row]\<rparr>))"

text \<open>
  The world: the outcomes of the coming \<^verbatim>\<open>axios.get\<close> calls (past their end the
  request is rejected), the store, and the trace so far.
\<close>

record world =
  network :: "response list"
  db :: store
  trace :: "event list"

definition emit :: "event list \<Rightarrow> world \<Rightarrow> world" where
  "emit es w = w\<lparr>trace := trace w @ es\<rparr>"

section \<open>fetchMeets\<close>

text \<open>
  The outer \<^verbatim>\<open>try\<close> block, given the outcome of the request. The inner
  \<^verbatim>\<open>try\<close>/\<^verbatim>\<open>catch\<close> around \<^verbatim>\<open>JSON.parse\<close> logs and returns the empty array.
\<close>

definition fetchMeets_try :: "response \<Rightarrow> js_error + payload \<times> event list" where
  "fetchMeets_try r =
     (case r of
        Rejected \<Rightarrow> Inl (JsError (js ''Request failed''))
      | Response code body \<Rightarrow>
          if code \<noteq> 200 then Inl (JsError (js ''API request failed with status''))
          else
            (case body of
               StringBody parsed \<Rightarrow>
                 (case parsed of
                    Some d \<Rightarrow> Inr (d, [])
                  | None \<Rightarrow> Inr (Listings [], [LogError JsonParseError]))
             | ObjectBody read \<Rightarrow>
                 (case read of Some d \<Rightarrow> Inr (d, []) | None \<Rightarrow> Inl TypeError)))"

text \<open>
  \<^verbatim>\<open>fetchMeets\<close> as the operation \<^verbatim>\<open>retry\<close> is given: it takes the next outcome of
  the network. Its \<^verbatim>\<open>catch\<close> block logs the error and returns the empty array.
\<close>

definition fetchMeets :: "world \<Rightarrow> (js_error + payload) \<times> world" where
  "fetchMeets w =
     (let (r, rest) = (case network w of [] \<Rightarrow> (Rejected, []) | r # rest \<Rightarrow> (r, rest));
          w1 = emit [Log Fetching, HttpGet] (w\<lparr>network := rest\<rparr>)
      in case fetchMeets_try r of
           Inr (d, logged) \<Rightarrow> (Inr d, emit logged w1)
         | Inl error \<Rightarrow> (Inr (Listings []), emit [LogError (FetchError error)] w1))"

section \<open>retry\<close>

text \<open>
  How the promise of \<^verbatim>\<open>retry\<close> settles: with the value of \<^verbatim>\<open>fn\<close>, with the error
  thrown, or with \<^verbatim>\<open>undefined\<close> when the loop ends without a \<^verbatim>\<open>return\<close>.
\<close>

datatype ('e, 'a) completion = Returns 'a | Throws 'e | ReturnsUndefined

text \<open>
  The \<^verbatim>\<open>while\<close> loop. \<open>fn\<close> is an operation on the world; \<open>delays\<close> collects the
  backoff delays in milliseconds, each logged and then awaited. \<open>maxRetries\<close> is
  an integer.
\<close>

function retry_loop ::
  "('w \<Rightarrow> ('e + 'a) \<times> 'w) \<Rightarrow> int \<Rightarrow> nat \<Rightarrow> nat list \<Rightarrow> 'w
     \<Rightarrow> ('e, 'a) completion \<times> nat list \<times> 'w" where
  "retry_loop fn maxRetries retries delays w =
     (if int retries < maxRetries then
        (case fn w of
           (Inr v, w') \<Rightarrow> (Returns v, delays, w')
         | (Inl error, w') \<Rightarrow>
             (if int (retries + 1) \<ge> maxRetries then (Throws error, delays, w')
              else retry_loop fn maxRetries (retries + 1)
                     (delays @ [2 ^ (retries + 1) * 1000]) w'))
      else (ReturnsUndefined, delays, w))"
  by pat_completeness auto
termination
  by (relation "measure (\<lambda>(fn, maxRetries, retries, delays, w). nat (maxRetries - int retries))")
     auto

declare retry_loop.simps [simp del]

definition retry ::
  "('w \<Rightarrow> ('e + 'a) \<times> 'w) \<Rightarrow> int \<Rightarrow> 'w \<Rightarrow> ('e, 'a) completion \<times> nat list \<times> 'w" where
  "retry fn maxRetries w = retry_loop fn maxRetries 0 [] w"

text \<open>
  For stating what \<^verbatim>\<open>retry\<close> does with an operation: the world after \<open>k\<close>
  invocations of \<open>fn\<close> in a row, the outcome of the invocation that follows them,
  and \<open>fn\<close> with a counter of its invocations beside the world.
\<close>

definition world_after :: "nat \<Rightarrow> ('w \<Rightarrow> ('e + 'a) \<times> 'w) \<Rightarrow> 'w \<Rightarrow> 'w" where
  "world_after k fn w = ((snd \<circ> fn) ^^ k) w"

definition attempt :: "nat \<Rightarrow> ('w \<Rightarrow> ('e + 'a) \<times> 'w) \<Rightarrow> 'w \<Rightarrow> 'e + 'a" where
  "attempt k fn w = fst (fn (world_after k fn w))"

definition counted :: "('w \<Rightarrow> ('e + 'a) \<times> 'w) \<Rightarrow> 'w \<times> nat \<Rightarrow> ('e + 'a) \<times> 'w \<times> nat" where
  "counted fn wk = (case wk of (w, k) \<Rightarrow> (case fn w of (r, w') \<Rightarrow> (r, w', Suc k)))"

text \<open>The default value of the parameter \<open>maxRetries\<close>.\<close>

definition default_maxRetries :: int where
  "default_maxRetries = 3"

section \<open>meetExists and syncMeets\<close>

definition meetExists :: "meet \<Rightarrow> world \<Rightarrow> bool \<times> world" where
  "meetExists meet w =
     (let (answer, s) = select_by_name (name meet) (db w);
          w1 = emit [Select (name meet)] (w\<lparr>db := s\<rparr>)
      in case answer of
           Failure \<Rightarrow> (False, emit [LogError (ExistsQueryError (name meet))] w1)
         | Data nameData \<Rightarrow>
             if length nameData > 0 then (True, w1)
             else (False, emit [Log (MeetIsNew (name meet) (external_id meet))] w1))"

text \<open>\<^verbatim>\<open>const { external_id, ...meetData } = meet\<close>\<close>

definition strip_external_id :: "meet \<Rightarrow> meet_row" where
  "strip_external_id meet = meet_row.truncate meet"

text \<open>The body of the \<^verbatim>\<open>for\<close> loop, on the counters and the world.\<close>

definition sync_one :: "meet \<Rightarrow> nat \<times> nat \<times> world \<Rightarrow> nat \<times> nat \<times> world" where
  "sync_one meet st =
     (case st of (insertCount, skippedCount, w) \<Rightarrow>
        (case meetExists meet w of
           (True, w1) \<Rightarrow>
             (insertCount, skippedCount + 1, emit [Log (AlreadyExists (name meet))] w1)
         | (False, w1) \<Rightarrow>
             (let meetData = strip_external_id meet;
                  (answer, s) = insert_row meetData (db w1);
                  w2 = emit [Insert meetData] (w1\<lparr>db := s\<rparr>)
              in case answer of
                   Failure \<Rightarrow>
                     (insertCount, skippedCount,
                      emit [LogError (InsertError (name meet)), Timer 500] w2)
                 | Data u \<Rightarrow>
                     (insertCount + 1, skippedCount,
                      emit [Log (Inserted (name meet)), Timer 500] w2))))"

fun sync_loop :: "meet list \<Rightarrow> nat \<times> nat \<times> world \<Rightarrow> nat \<times> nat \<times> world" where
  "sync_loop [] st = st"
| "sync_loop (meet # rest) st = sync_loop rest (sync_one meet st)"

text \<open>The names asked for by the existence queries of a trace, in order.\<close>

fun queried :: "event list \<Rightarrow> jsval list" where
  "queried [] = []"
| "queried (Select n # es) = n # queried es"
| "queried (e # es) = queried es"

text \<open>How the process ends: \<^verbatim>\<open>syncMeets\<close> returns, or \<^verbatim>\<open>process.exit(1)\<close>.\<close>

datatype ending = Completed | Exit nat

record run =
  ending :: ending
  insertCount :: nat
  skippedCount :: nat
  backoffs :: "nat list"
  final :: world

definition syncMeets :: "world \<Rightarrow> run" where
  "syncMeets w =
     (case retry fetchMeets default_maxRetries w of (settled, delays, w1) \<Rightarrow>
        (let no_data = \<lparr>ending = Completed, insertCount = 0, skippedCount = 0,
                        backoffs = delays, final = emit [Log NoMeetsData] w1\<rparr>;
             failed = (\<lambda>error w'. \<lparr>ending = Exit 1, insertCount = 0, skippedCount = 0,
                        backoffs = delays, final = emit [LogError (SyncError error)] w'\<rparr>)
         in case settled of
              Throws error \<Rightarrow> failed error w1
            | ReturnsUndefined \<Rightarrow> no_data
            | Returns meetsData \<Rightarrow>
                (case meetsData of
                   Other is_truthy length_is_0 \<Rightarrow>
                     if \<not> is_truthy \<or> length_is_0 then no_data
                     else failed TypeError (emit [Log (Fetched meetsData)] w1)
                 | Listings ls \<Rightarrow>
                     if length ls = 0 then no_data
                     else
                       (let w2 = emit [Log (Fetched meetsData)] w1
                        in case transformMeetsData ls of
                             Inl error \<Rightarrow> failed error w2
                           | Inr transformedMeets \<Rightarrow>
                               (case sync_loop transformedMeets
                                       (0, 0, emit [Log (Processed (length transformedMeets))] w2)
                                of (inserted, skipped, w3) \<Rightarrow>
                                  \<lparr>ending = Completed, insertCount = inserted,
                                   skippedCount = skipped, backoffs = delays,
                                   final = emit [Log (SyncCompleted (length transformedMeets)
                                                    inserted skipped)] w3\<rparr>)))))"

section \<open>Concrete inputs\<close>

text \<open>
  A listing as the upstream service sends it, the response that carries it alone,
  and a store without rows whose requests all succeed. The theorems below are
  applied to them.
\<close>

definition example_listing :: raw_listing where
  "example_listing =
     \<lparr>listing_id = JNumber 1, listing_name = JString (js ''Spring Open''),
      address = JString (js
        ''7051 Commerce Circle, Pleasanton, California, United States of America, 94588''),
      subtitle = JString (js ''06/08/2025'')\<rparr>"

definition example_response :: response where
  "example_response = Response 200 (ObjectBody (Some (Listings [Some example_listing])))"

definition empty_store :: store where
  "empty_store = \<lparr>rows = [], query_faults = [], insert_faults = []\<rparr>"

section \<open>Properties of the parsers\<close>

lemmas parser_defs =
  parseAddress_def parseAddress_try_def fallback_address_def parseDateRange_def
  parseDateRange_try_def iso_date_def component_def js_def split_js_def starts_with_def
  starts_with_ci_def canon_def starts_with_digit_def is_digit_def is_space_def Let_def

subsection \<open>Index reads are in range\<close>

lemma split_from_nonempty: "split_from sep acc s \<noteq> []"
  by (induction sep acc s rule: split_from.induct) auto

lemma split_js_nonempty: "sep \<noteq> [] \<Longrightarrow> split_js sep s \<noteq> []"
  by (simp add: split_js_def split_from_nonempty)

lemma findIndex_range: "- 1 \<le> findIndex p xs \<and> findIndex p xs < int (length xs)"
  by (induction xs) (auto simp: Let_def)

subsection \<open>parseAddress\<close>

text \<open>
  C4. On the two addresses of the specification, \<open>parseAddress\<close> returns: for
  ``7051 Commerce Circle, Pleasanton, California, United States of America, 94588''
  no venue name, street ``7051 Commerce Circle'', city ``Pleasanton'', state
  ``California'', zip ``94588''; for ``CrossFit Revamped, 9385 Washington Blvd.,
  Suite B-C, Laurel, Maryland, United States of America, 20723'' venue name
  ``CrossFit Revamped'', street ``9385 Washington Blvd., Suite B-C'', city ``Laurel'',
  state ``Maryland'' (and zip ``20723'').
\<close>

theorem parseAddress_examples:
  "parseAddress (JString (js
      ''7051 Commerce Circle, Pleasanton, California, United States of America, 94588''))
     = \<lparr>venueName = [], street = JString (js ''7051 Commerce Circle''),
        city = js ''Pleasanton'', state = js ''California'', zip_field = js ''94588''\<rparr>
   \<and> parseAddress (JString (js
      ''CrossFit Revamped, 9385 Washington Blvd., Suite B-C, Laurel, Maryland, United States of America, 20723''))
     = \<lparr>venueName = js ''CrossFit Revamped'',
        street = JString (js ''9385 Washington Blvd., Suite B-C''),
        city = js ''Laurel'', state = js ''Maryland'', zip_field = js ''20723''\<rparr>"
  by (simp add: parser_defs)

text \<open>
  C3, amended. On every string the \<^verbatim>\<open>try\<close> block of \<open>parseAddress\<close> completes
  without raising; and when the string, after the repeated commas are collapsed,
  splits into fewer than 4 parts, the result has an empty venue name, city, state
  and zip ``Unknown'', and as street the string \<^emph>\<open>after\<close> the collapse (the
  variable \<^verbatim>\<open>address\<close> was reassigned), which is the input only when the collapse
  changed nothing.
\<close>

theorem parseAddress_degraded:
  "(\<exists>r. parseAddress_try (JString a) = Inr r)
   \<and> (length (split_js (js '', '') (collapse_commas a)) < 4 \<longrightarrow>
        parseAddress (JString a)
          = \<lparr>venueName = [], street = JString (collapse_commas a), city = js ''Unknown'',
             state = js ''Unknown'', zip_field = js ''Unknown''\<rparr>)"
  by (simp add: parseAddress_def parseAddress_try_def fallback_address_def Let_def)

text \<open>The theorem at the address ``Portland, Oregon'', which has two parts.\<close>

theorem parseAddress_degraded_witness:
  "length (split_js (js '', '') (collapse_commas (js ''Portland, Oregon''))) < 4
   \<and> parseAddress (JString (js ''Portland, Oregon''))
        = \<lparr>venueName = [], street = JString (collapse_commas (js ''Portland, Oregon'')),
           city = js ''Unknown'', state = js ''Unknown'', zip_field = js ''Unknown''\<rparr>"
  using parseAddress_degraded [of "js ''Portland, Oregon''"]
  by (simp add: js_def split_js_def starts_with_def is_space_def)

text \<open>
  The street is not always the original string: the address of the source's own
  comment, ``8439 NE Columbia Ct,, Portland'', has fewer than 4 parts and comes back
  with the doubled comma collapsed.
\<close>

theorem parseAddress_street_collapsed:
  "length (split_js (js '', '') (collapse_commas (js ''8439 NE Columbia Ct,, Portland''))) < 4
   \<and> street (parseAddress (JString (js ''8439 NE Columbia Ct,, Portland'')))
       = JString (js ''8439 NE Columbia Ct, Portland'')
   \<and> street (parseAddress (JString (js ''8439 NE Columbia Ct,, Portland'')))
       \<noteq> JString (js ''8439 NE Columbia Ct,, Portland'')"
  by (simp add: parser_defs)

subsection \<open>parseDateRange\<close>

lemma split_from_no_occurrence:
  "\<not> occurs sep s \<Longrightarrow> split_from sep acc s = [acc @ s]"
  by (induction s arbitrary: acc) auto

lemma unescape_slashes_Cons:
  "unescape_slashes s = x # r \<Longrightarrow> x \<noteq> 47 \<Longrightarrow> \<exists>t. s = x # t \<and> r = unescape_slashes t"
  by (cases s rule: unescape_slashes.cases) (auto split: if_splits)

lemma starts_with_Cons:
  "starts_with (a # p) s = (\<exists>t. s = a # t \<and> starts_with p t)"
  by (cases s) (auto simp: starts_with_def)

lemma separator_code_units: "js '' - '' = [32, 45, 32]"
  by (simp add: js_def)

text \<open>Unescaping removes backslashes before slashes only, so it creates no separator.\<close>

lemma starts_with_separator_unescape:
  assumes "starts_with (js '' - '') (unescape_slashes s)"
  shows "starts_with (js '' - '') s"
proof -
  from assms obtain r where u: "unescape_slashes s = 32 # 45 # 32 # r"
    by (auto simp: separator_code_units starts_with_Cons)
  from unescape_slashes_Cons [OF u]
  obtain t where t: "s = 32 # t" "45 # 32 # r = unescape_slashes t"
    by auto
  from unescape_slashes_Cons [OF t(2) [symmetric]]
  obtain t' where t': "t = 45 # t'" "32 # r = unescape_slashes t'"
    by auto
  from unescape_slashes_Cons [OF t'(2) [symmetric]]
  obtain t'' where "t' = 32 # t''"
    by auto
  with t t' show ?thesis
    by (simp add: separator_code_units starts_with_Cons starts_with_def)
qed

lemma occurs_separator_unescape:
  "occurs (js '' - '') (unescape_slashes s) \<Longrightarrow> occurs (js '' - '') s"
proof (induction s rule: unescape_slashes.induct)
  case (1 a b cs)
  show ?case
  proof (cases "a = 92 \<and> b = 47")
    case True
    with 1 show ?thesis
      by (auto simp: separator_code_units starts_with_Cons)
  next
    case False
    from "1.prems" False
    have "starts_with (js '' - '') (unescape_slashes (a # b # cs))
          \<or> occurs (js '' - '') (unescape_slashes (b # cs))"
      by auto
    then show ?thesis
    proof
      assume "starts_with (js '' - '') (unescape_slashes (a # b # cs))"
      then have "starts_with (js '' - '') (a # b # cs)"
        by (rule starts_with_separator_unescape)
      then show ?thesis by simp
    next
      assume "occurs (js '' - '') (unescape_slashes (b # cs))"
      with "1.IH"(2) False have "occurs (js '' - '') (b # cs)" by blast
      then show ?thesis by simp
    qed
  qed
qed simp_all

text \<open>A single date of three components made of digits.\<close>

lemma not_occurs_without_head:
  "p \<noteq> [] \<Longrightarrow> hd p \<notin> set s \<Longrightarrow> \<not> occurs p s"
  by (induction s) (auto simp: starts_with_def neq_Nil_conv)

lemma unescape_slashes_id: "92 \<notin> set s \<Longrightarrow> unescape_slashes s = s"
  by (induction s rule: unescape_slashes.induct) auto

lemma split_from_slash:
  "47 \<notin> set m \<Longrightarrow> split_from [47] acc (m @ 47 # rest) = (acc @ m) # split_from [47] [] rest"
  by (induction m arbitrary: acc) (auto simp: starts_with_def)

lemma digits_plain: "list_all is_digit s \<Longrightarrow> 47 \<notin> set s \<and> 92 \<notin> set s \<and> 32 \<notin> set s"
  by (auto simp: list_all_iff is_digit_def)

lemma parseDateRange_well_formed:
  assumes "list_all is_digit m" "list_all is_digit d" "list_all is_digit y"
  shows "parseDateRange (JString (m @ js ''/'' @ d @ js ''/'' @ y))
           = \<lparr>startDate = JString (y @ js ''-'' @ m @ js ''-'' @ d),
              endDate = JString (y @ js ''-'' @ m @ js ''-'' @ d)\<rparr>"
proof -
  let ?s = "m @ js ''/'' @ d @ js ''/'' @ y"
  from assms digits_plain have plain:
    "47 \<notin> set m" "47 \<notin> set d" "47 \<notin> set y" "92 \<notin> set ?s" "32 \<notin> set ?s"
    by (auto simp: js_def)
  have u: "unescape_slashes ?s = ?s" using plain(4) by (rule unescape_slashes_id)
  have "\<not> occurs (js '' - '') ?s"
    using plain(5) by (intro not_occurs_without_head) (simp_all add: js_def)
  then have one: "split_js (js '' - '') ?s = [?s]"
    by (simp add: split_js_def split_from_no_occurrence js_def)
  have "\<not> occurs [47] y" using plain(3) by (intro not_occurs_without_head) simp_all
  then have parts: "split_js (js ''/'') ?s = [m, d, y]"
    using plain(1,2)
    by (simp add: split_js_def js_def split_from_slash split_from_no_occurrence)
  show ?thesis
    by (simp add: parseDateRange_def parseDateRange_try_def u one parts iso_date_def
          component_def Let_def)
qed

text \<open>
  C5. On the input \<^verbatim>\<open>06\/08\/2025 - 06\/08\/2025\<close>, whose slashes are escaped by
  backslashes (code unit 92), \<open>parseDateRange\<close> returns start and end date
  ``2025-06-08''; on every string in which the separator `` - '' does not
  occur, the start date it returns is a string and equals the end date; and on a
  single date \<open>m/d/y\<close> whose components are made of digits, both are \<open>y-m-d\<close>.
\<close>

theorem parseDateRange_single_day:
  "parseDateRange (JString (js ''06'' @ 92 # js ''/08'' @ 92 # js ''/2025 - 06'' @ 92 #
                            js ''/08'' @ 92 # js ''/2025''))
     = \<lparr>startDate = JString (js ''2025-06-08''), endDate = JString (js ''2025-06-08'')\<rparr>
   \<and> (\<forall>s. \<not> occurs (js '' - '') s \<longrightarrow>
          startDate (parseDateRange (JString s)) = endDate (parseDateRange (JString s))
          \<and> (\<exists>d. startDate (parseDateRange (JString s)) = JString d))
   \<and> (\<forall>m d y. list_all is_digit m \<and> list_all is_digit d \<and> list_all is_digit y \<longrightarrow>
          parseDateRange (JString (m @ js ''/'' @ d @ js ''/'' @ y))
            = \<lparr>startDate = JString (y @ js ''-'' @ m @ js ''-'' @ d),
               endDate = JString (y @ js ''-'' @ m @ js ''-'' @ d)\<rparr>)"
proof (intro conjI allI impI)
  show "parseDateRange (JString (js ''06'' @ 92 # js ''/08'' @ 92 # js ''/2025 - 06'' @ 92 #
                                 js ''/08'' @ 92 # js ''/2025''))
     = \<lparr>startDate = JString (js ''2025-06-08''), endDate = JString (js ''2025-06-08'')\<rparr>"
    by (simp add: parser_defs)
next
  fix s
  assume "\<not> occurs (js '' - '') s"
  then have "\<not> occurs (js '' - '') (unescape_slashes s)"
    using occurs_separator_unescape by blast
  then have one: "split_js (js '' - '') (unescape_slashes s) = [unescape_slashes s]"
    by (simp add: split_js_def split_from_no_occurrence separator_code_units)
  show "startDate (parseDateRange (JString s)) = endDate (parseDateRange (JString s))"
    by (simp add: parseDateRange_def parseDateRange_try_def one Let_def)
  show "\<exists>d. startDate (parseDateRange (JString s)) = JString d"
    by (simp add: parseDateRange_def parseDateRange_try_def Let_def)
next
  fix m d y
  assume "list_all is_digit m \<and> list_all is_digit d \<and> list_all is_digit y"
  then show "parseDateRange (JString (m @ js ''/'' @ d @ js ''/'' @ y))
            = \<lparr>startDate = JString (y @ js ''-'' @ m @ js ''-'' @ d),
               endDate = JString (y @ js ''-'' @ m @ js ''-'' @ d)\<rparr>"
    by (simp add: parseDateRange_well_formed)
qed

text \<open>The theorem at the single date ``06/08/2025''.\<close>

theorem parseDateRange_single_day_witness:
  "\<not> occurs (js '' - '') (js ''06/08/2025'')
   \<and> list_all is_digit (js ''06'') \<and> list_all is_digit (js ''08'')
   \<and> list_all is_digit (js ''2025'')
   \<and> startDate (parseDateRange (JString (js ''06/08/2025'')))
       = endDate (parseDateRange (JString (js ''06/08/2025'')))
   \<and> parseDateRange (JString (js ''06'' @ js ''/'' @ js ''08'' @ js ''/'' @ js ''2025''))
       = \<lparr>startDate = JString (js ''2025'' @ js ''-'' @ js ''06'' @ js ''-'' @ js ''08''),
          endDate = JString (js ''2025'' @ js ''-'' @ js ''06'' @ js ''-'' @ js ''08'')\<rparr>"
proof -
  have h1: "\<not> occurs (js '' - '') (js ''06/08/2025'')"
    by (simp add: js_def starts_with_def)
  have h2: "list_all is_digit (js ''06'') \<and> list_all is_digit (js ''08'')
            \<and> list_all is_digit (js ''2025'')"
    by (simp add: js_def is_digit_def)
  from parseDateRange_single_day [THEN conjunct2, THEN conjunct1, rule_format, OF h1]
  have a: "startDate (parseDateRange (JString (js ''06/08/2025'')))
       = endDate (parseDateRange (JString (js ''06/08/2025'')))"
    by simp
  from parseDateRange_single_day [THEN conjunct2, THEN conjunct2, rule_format, OF h2]
  have b: "parseDateRange (JString (js ''06'' @ js ''/'' @ js ''08'' @ js ''/'' @ js ''2025''))
       = \<lparr>startDate = JString (js ''2025'' @ js ''-'' @ js ''06'' @ js ''-'' @ js ''08''),
          endDate = JString (js ''2025'' @ js ''-'' @ js ''06'' @ js ''-'' @ js ''08'')\<rparr>" .
  from h1 h2 a b show ?thesis by blast
qed

text \<open>
  C2 does not hold of the code. On a string no statement of the \<^verbatim>\<open>try\<close> block
  raises, so the \<^verbatim>\<open>catch\<close> block that returns \<^verbatim>\<open>{null, null}\<close> is never reached:
  \<open>parseDateRange\<close> returns two strings on every string. A subtitle without a date,
  the empty subtitle, a range with two components and an empty second token, and
  a range with letters for digits and a second token of two components all come
  back as dates, a missing component printed as ``undefined''.
\<close>

theorem parseDateRange_garbage:
  "parseDateRange (JString (js ''TBD''))
     = \<lparr>startDate = JString (js ''undefined-TBD-undefined''),
        endDate = JString (js ''undefined-TBD-undefined'')\<rparr>
   \<and> parseDateRange (JString (js ''''))
     = \<lparr>startDate = JString (js ''undefined--undefined''),
        endDate = JString (js ''undefined--undefined'')\<rparr>
   \<and> parseDateRange (JString (js ''June/2025 - ''))
     = \<lparr>startDate = JString (js ''undefined-June-2025''),
        endDate = JString (js ''undefined-June-2025'')\<rparr>
   \<and> parseDateRange (JString (js ''ab/cd/efgh - 06/08''))
     = \<lparr>startDate = JString (js ''efgh-ab-cd''),
        endDate = JString (js ''undefined-06-08'')\<rparr>
   \<and> (\<forall>s. \<exists>a b. parseDateRange (JString s) = \<lparr>startDate = JString a, endDate = JString b\<rparr>)"
  by (simp add: parser_defs)

section \<open>Properties of the transformation\<close>

lemma stateMap_entries:
  "(k, c) \<in> set stateMap \<Longrightarrow> length c = 2 \<and> k \<noteq> []"
  by (auto simp: stateMap_def)

lemma js_inj: "js a = js b \<Longrightarrow> a = b"
  unfolding js_def by (rule map_injective) (auto intro: injI)

lemma fst_js_pairs:
  "map fst (map (\<lambda>(k, v). (js k, js v)) xs) = map (js \<circ> fst) xs"
  by (induction xs) auto

lemma stateMap_keys_distinct: "distinct (map fst stateMap)"
  by (simp add: stateMap_def)

lemma stateMap_lookup:
  assumes "(k, c) \<in> set stateMap"
  shows "map_of (map (\<lambda>(k, v). (js k, js v)) stateMap) (js k) = Some (js c)"
proof -
  have "distinct (map js (map fst stateMap))"
    using stateMap_keys_distinct by (auto simp: distinct_map inj_on_def dest: js_inj)
  then have "distinct (map (js \<circ> fst) stateMap)"
    by simp
  then have "distinct (map fst (map (\<lambda>(k, v). (js k, js v)) stateMap))"
    by (simp only: fst_js_pairs)
  moreover from assms have "(js k, js c) \<in> set (map (\<lambda>(k, v). (js k, js v)) stateMap)"
    by force
  ultimately show ?thesis by (rule map_of_is_SomeI)
qed

lemma getStateAbbreviation_key:
  assumes "(k, c) \<in> set stateMap"
  shows "getStateAbbreviation (js k) = JString (js c) \<and> length (js c) = 2"
proof -
  from stateMap_entries [OF assms] have "length (js c) = 2" by (simp add: js_def)
  moreover from this have "js c \<noteq> []" by auto
  ultimately show ?thesis
    by (simp add: getStateAbbreviation_def get_property_def stateMap_lookup [OF assms])
qed

lemma getStateAbbreviation_other:
  assumes "st \<notin> set (map (js \<circ> fst) stateMap)"
      and "st \<notin> set (map js object_prototype_names)"
  shows "getStateAbbreviation st = JString st"
proof -
  have "map_of (map (\<lambda>(k, v). (js k, js v)) stateMap) st = None"
    using assms(1) by (force simp: map_of_eq_None_iff image_iff)
  with assms(2) show ?thesis
    by (simp add: getStateAbbreviation_def get_property_def)
qed

lemma empty_not_a_name:
  "[] \<notin> set (map (js \<circ> fst) stateMap) \<and> [] \<notin> set (map js object_prototype_names)"
  by (simp add: stateMap_def object_prototype_names_def js_def)

lemma map_listings_member:
  "map_listings ls = Inr rs \<Longrightarrow> m \<in> set rs \<Longrightarrow> \<exists>l. Some l \<in> set ls \<and> m = transformMeet l"
proof (induction ls arbitrary: rs rule: map_listings.induct)
  case 1
  then show ?case by simp
next
  case (2 ms)
  then show ?case by simp
next
  case (3 x ms)
  from "3.prems"(1) obtain rs' where rs': "map_listings ms = Inr rs'" "rs = transformMeet x # rs'"
    by (auto split: sum.splits)
  show ?case
  proof (cases "m = transformMeet x")
    case True
    then show ?thesis by auto
  next
    case False
    with "3.prems"(2) rs' have "m \<in> set rs'" by simp
    from "3.IH" [OF rs'(1) this] show ?thesis by auto
  qed
qed

lemma transformMeetsData_member:
  "transformMeetsData ls = Inr ms \<Longrightarrow> m \<in> set ms \<Longrightarrow> \<exists>l. Some l \<in> set ls \<and> m = transformMeet l"
  by (auto simp: transformMeetsData_def split: sum.splits dest: map_listings_member)

lemma transformMeet_fields:
  "venue_state (transformMeet l) = getStateAbbreviation (state (parseAddress (address l)))"
  "start_date (transformMeet l) = startDate (parseDateRange (subtitle l))"
  "end_date (transformMeet l) = endDate (parseDateRange (subtitle l))"
  "name (transformMeet l) = listing_name l"
  by (simp_all add: transformMeet_def Let_def)

lemma transformMeetsData_single:
  "transformMeetsData [Some l] =
     Inr (if truthy (startDate (parseDateRange (subtitle l))) \<and> truthy (endDate (parseDateRange (subtitle l)))
          then [transformMeet l] else [])"
  by (simp add: transformMeetsData_def transformMeet_fields)

lemma example_transformed:
  "transformMeetsData [Some example_listing] = Inr [transformMeet example_listing]"
  by (simp add: transformMeetsData_single example_listing_def parser_defs)

text \<open>
  C6, amended. Every record that \<open>transformMeetsData\<close> returns comes from a
  listing \<open>l\<close> of the collection. When the state parsed from the address of \<open>l\<close>
  is one of the 51 names of \<open>stateMap\<close>, its \<open>venue_state\<close> is the two-letter code
  of that name. When the parsed state is neither such a name nor the name of a
  member of \<^verbatim>\<open>Object.prototype\<close>, its \<open>venue_state\<close> is the parsed state unchanged;
  so it is the empty string when the parsed state is empty, which the parser does
  return. Nothing is said of a parsed state that names a member of
  \<^verbatim>\<open>Object.prototype\<close>.
\<close>

theorem venue_state_shape:
  assumes "transformMeetsData ls = Inr ms" and "m \<in> set ms"
  shows "\<exists>l. Some l \<in> set ls \<and> m = transformMeet l
     \<and> (\<forall>k c. (k, c) \<in> set stateMap \<and> state (parseAddress (address l)) = js k
            \<longrightarrow> venue_state m = JString (js c) \<and> length (js c) = 2)
     \<and> (state (parseAddress (address l)) \<notin> set (map (js \<circ> fst) stateMap)
        \<and> state (parseAddress (address l)) \<notin> set (map js object_prototype_names)
            \<longrightarrow> venue_state m = JString (state (parseAddress (address l))))
     \<and> (state (parseAddress (address l)) = [] \<longrightarrow> venue_state m = JString [])"
proof -
  from transformMeetsData_member [OF assms]
  obtain l where l: "Some l \<in> set ls" "m = transformMeet l"
    by blast
  have a: "\<forall>k c. (k, c) \<in> set stateMap \<and> state (parseAddress (address l)) = js k
            \<longrightarrow> venue_state m = JString (js c) \<and> length (js c) = 2"
    by (auto simp: l(2) transformMeet_fields getStateAbbreviation_key)
  have b: "state (parseAddress (address l)) \<notin> set (map (js \<circ> fst) stateMap)
        \<and> state (parseAddress (address l)) \<notin> set (map js object_prototype_names)
            \<longrightarrow> venue_state m = JString (state (parseAddress (address l)))"
    by (simp add: l(2) transformMeet_fields getStateAbbreviation_other)
  have c: "state (parseAddress (address l)) = [] \<longrightarrow> venue_state m = JString []"
    using empty_not_a_name
    by (auto simp: l(2) transformMeet_fields getStateAbbreviation_other simp del: set_map)
  from l a b c show ?thesis by blast
qed

text \<open>
  The theorem at the example listing, whose parsed state is ``California'', and at
  the same listing with the address ``Portland, Oregon'', whose parsed state is
  ``Unknown''.
\<close>

theorem venue_state_shape_witness:
  "transformMeetsData [Some example_listing] = Inr [transformMeet example_listing]
   \<and> transformMeet example_listing \<in> set [transformMeet example_listing]
   \<and> (''California'', ''CA'') \<in> set stateMap
   \<and> state (parseAddress (address example_listing)) = js ''California''
   \<and> venue_state (transformMeet example_listing) = JString (js ''CA'')
   \<and> length (js ''CA'') = 2
   \<and> transformMeetsData [Some (example_listing\<lparr>address := JString (js ''Portland, Oregon'')\<rparr>)]
       = Inr [transformMeet (example_listing\<lparr>address := JString (js ''Portland, Oregon'')\<rparr>)]
   \<and> js ''Unknown'' \<notin> set (map (js \<circ> fst) stateMap)
   \<and> js ''Unknown'' \<notin> set (map js object_prototype_names)
   \<and> venue_state (transformMeet (example_listing\<lparr>address := JString (js ''Portland, Oregon'')\<rparr>))
       = JString (js ''Unknown'')"
proof -
  let ?u = "example_listing\<lparr>address := JString (js ''Portland, Oregon'')\<rparr>"
  have h1: "transformMeetsData [Some example_listing] = Inr [transformMeet example_listing]"
    by (rule example_transformed)
  have h2: "transformMeet example_listing \<in> set [transformMeet example_listing]" by simp
  have h3: "(''California'', ''CA'') \<in> set stateMap"
    by (simp add: stateMap_def)
  have h4: "state (parseAddress (address example_listing)) = js ''California''"
    by (simp add: example_listing_def parser_defs)
  from venue_state_shape [OF h1 h2] h3 h4
  have a: "venue_state (transformMeet example_listing) = JString (js ''CA'')
           \<and> length (js ''CA'') = 2"
    by auto
  have g1: "transformMeetsData [Some ?u] = Inr [transformMeet ?u]"
    by (simp add: transformMeetsData_single example_listing_def parser_defs)
  have g2: "transformMeet ?u \<in> set [transformMeet ?u]" by simp
  have g3: "js ''Unknown'' \<notin> set (map (js \<circ> fst) stateMap)"
    by (simp add: stateMap_def js_def)
  have g4: "js ''Unknown'' \<notin> set (map js object_prototype_names)"
    by (simp add: object_prototype_names_def js_def)
  have g5: "state (parseAddress (address ?u)) = js ''Unknown''"
    by (simp add: parser_defs)
  from venue_state_shape [OF g1 g2] g3 g4 g5
  have b: "venue_state (transformMeet ?u) = JString (js ''Unknown'')"
    by auto
  from h1 h2 h3 h4 a g1 g3 g4 b show ?thesis by blast
qed

text \<open>
  The venue state can be empty: in the address
  ``, United States of America, Texas, 75001'' the part before the country is the
  empty string, and the record is kept, its dates being present.
\<close>

theorem venue_state_empty:
  "map_sum id (map venue_state)
     (transformMeetsData
        [Some \<lparr>listing_id = JNumber 1, listing_name = JString (js ''Open''),
               address = JString (js '', United States of America, Texas, 75001''),
               subtitle = JString (js ''06/08/2025'')\<rparr>])
   = Inr [JString []]"
  by (simp add: transformMeetsData_single transformMeet_fields getStateAbbreviation_def get_property_def
        stateMap_def object_prototype_names_def parser_defs)

section \<open>Properties of retry\<close>

lemma retry_loop_done:
  "\<not> int r < m \<Longrightarrow> retry_loop fn m r ds w = (ReturnsUndefined, ds, w)"
  by (simp add: retry_loop.simps)

lemma retry_loop_success:
  "int r < m \<Longrightarrow> fn w = (Inr v, w') \<Longrightarrow> retry_loop fn m r ds w = (Returns v, ds, w')"
  by (simp add: retry_loop.simps)

lemma retry_loop_last_failure:
  "int r < m \<Longrightarrow> m \<le> int r + 1 \<Longrightarrow> fn w = (Inl e, w')
   \<Longrightarrow> retry_loop fn m r ds w = (Throws e, ds, w')"
  by (simp add: retry_loop.simps)

lemma retry_loop_again:
  "int r + 1 < m \<Longrightarrow> fn w = (Inl e, w')
   \<Longrightarrow> retry_loop fn m r ds w = retry_loop fn m (Suc r) (ds @ [2 ^ Suc r * 1000]) w'"
  by (simp add: retry_loop.simps [of fn m r])

lemma world_after_Suc: "world_after (Suc k) fn w = world_after k fn (snd (fn w))"
  by (simp add: world_after_def funpow_swap1)

lemma attempt_Suc: "attempt (Suc k) fn w = attempt k fn (snd (fn w))"
  by (simp add: attempt_def world_after_Suc)

lemma retry_loop_all_fail:
  "n = Suc (r + d) \<Longrightarrow> (\<forall>k\<le>d. isl (attempt k fn w))
   \<Longrightarrow> retry_loop fn (int n) r ds w =
         (Throws (projl (attempt d fn w)), ds @ map (\<lambda>k. 2 ^ k * 1000) [Suc r..<n],
          world_after (Suc d) fn w)"
proof (induction d arbitrary: r ds w)
  case 0
  from "0.prems"(2) obtain e w' where f: "fn w = (Inl e, w')"
    by (cases "fn w") (auto simp: attempt_def world_after_def isl_def)
  from retry_loop_last_failure [of r "int n" fn w e w' ds] f "0.prems"(1)
  show ?case by (simp add: attempt_def world_after_def)
next
  case (Suc d)
  from "Suc.prems"(2) have "isl (attempt 0 fn w)" by blast
  then obtain e w' where f: "fn w = (Inl e, w')"
    by (cases "fn w") (auto simp: attempt_def world_after_def isl_def)
  have rest: "\<forall>k\<le>d. isl (attempt k fn w')"
  proof (intro allI impI)
    fix k assume "k \<le> d"
    with "Suc.prems"(2) have "isl (attempt (Suc k) fn w)" by simp
    with f show "isl (attempt k fn w')" by (simp add: attempt_Suc)
  qed
  have n: "n = Suc (Suc r + d)" using "Suc.prems"(1) by simp
  have step: "retry_loop fn (int n) r ds w = retry_loop fn (int n) (Suc r) (ds @ [2 ^ Suc r * 1000]) w'"
    using retry_loop_again [of r "int n" fn w e w' ds] f n by simp
  have up: "[Suc r..<n] = Suc r # [Suc (Suc r)..<n]"
    using n by (simp add: upt_conv_Cons)
  show ?case
    unfolding step Suc.IH [OF n rest] using f
    by (simp add: up attempt_Suc world_after_Suc)
qed

text \<open>
  C7. With the default \<open>maxRetries\<close> of 3, an operation that fails on its first
  two invocations and succeeds on the third makes \<open>retry\<close> return the value of the
  third, after backoff delays of \<open>2 ^ 1\<close> and \<open>2 ^ 2\<close> seconds (in milliseconds
  below), the second twice the first. An operation that fails three times makes
  it throw the third error after the same delays; and for every positive
  \<open>maxRetries = n\<close>, an operation that fails on its first \<open>n\<close> invocations makes
  it throw the error of the last of them, after \<open>n - 1\<close> delays of \<open>2 ^ k\<close> seconds
  for \<open>k\<close> from 1.
\<close>

theorem retry_backoff:
  "(fn w0 = (Inl e1, w1) \<and> fn w1 = (Inl e2, w2) \<and> fn w2 = (Inr v, w3) \<longrightarrow>
      retry fn default_maxRetries w0 = (Returns v, [2 ^ 1 * 1000, 2 ^ 2 * 1000], w3))
   \<and> (fn w0 = (Inl e1, w1) \<and> fn w1 = (Inl e2, w2) \<and> fn w2 = (Inl e3, w3) \<longrightarrow>
      retry fn default_maxRetries w0 = (Throws e3, [2 ^ 1 * 1000, 2 ^ 2 * 1000], w3))
   \<and> (0 < n \<and> (\<forall>k<n. isl (attempt k fn w)) \<longrightarrow>
      retry fn (int n) w =
        (Throws (projl (attempt (n - 1) fn w)), map (\<lambda>k. 2 ^ k * 1000) [1..<n],
         world_after n fn w))"
proof (intro conjI impI)
  assume a: "fn w0 = (Inl e1, w1) \<and> fn w1 = (Inl e2, w2) \<and> fn w2 = (Inr v, w3)"
  then have "retry_loop fn 3 0 [] w0 = retry_loop fn 3 (Suc 0) [2 ^ Suc 0 * 1000] w1"
    using retry_loop_again [of 0 3 fn w0 e1 w1 "[]"] by simp
  also have "\<dots> = retry_loop fn 3 (Suc (Suc 0)) [2 ^ Suc 0 * 1000, 2 ^ Suc (Suc 0) * 1000] w2"
    using a retry_loop_again [of "Suc 0" 3 fn w1 e2 w2 "[2 ^ Suc 0 * 1000]"] by simp
  also have "\<dots> = (Returns v, [2 ^ Suc 0 * 1000, 2 ^ Suc (Suc 0) * 1000], w3)"
    using a retry_loop_success [of "Suc (Suc 0)" 3 fn w2 v w3] by simp
  finally show "retry fn default_maxRetries w0 = (Returns v, [2 ^ 1 * 1000, 2 ^ 2 * 1000], w3)"
    by (simp add: retry_def default_maxRetries_def numeral_2_eq_2)
next
  assume a: "fn w0 = (Inl e1, w1) \<and> fn w1 = (Inl e2, w2) \<and> fn w2 = (Inl e3, w3)"
  then have "retry_loop fn 3 0 [] w0 = retry_loop fn 3 (Suc 0) [2 ^ Suc 0 * 1000] w1"
    using retry_loop_again [of 0 3 fn w0 e1 w1 "[]"] by simp
  also have "\<dots> = retry_loop fn 3 (Suc (Suc 0)) [2 ^ Suc 0 * 1000, 2 ^ Suc (Suc 0) * 1000] w2"
    using a retry_loop_again [of "Suc 0" 3 fn w1 e2 w2 "[2 ^ Suc 0 * 1000]"] by simp
  also have "\<dots> = (Throws e3, [2 ^ Suc 0 * 1000, 2 ^ Suc (Suc 0) * 1000], w3)"
    using a retry_loop_last_failure [of "Suc (Suc 0)" 3 fn w2 e3 w3] by simp
  finally show "retry fn default_maxRetries w0 = (Throws e3, [2 ^ 1 * 1000, 2 ^ 2 * 1000], w3)"
    by (simp add: retry_def default_maxRetries_def numeral_2_eq_2)
next
  assume a: "0 < n \<and> (\<forall>k<n. isl (attempt k fn w))"
  then obtain d where d: "n = Suc (0 + d)" by (cases n) auto
  with a have "\<forall>k\<le>d. isl (attempt k fn w)" by auto
  from retry_loop_all_fail [OF d this, of "[]"] d
  show "retry fn (int n) w =
        (Throws (projl (attempt (n - 1) fn w)), map (\<lambda>k. 2 ^ k * 1000) [1..<n],
         world_after n fn w)"
    by (simp add: retry_def)
qed

text \<open>
  The theorem at an operation on a counter that fails while the counter is below
  2, and at one that always fails with the counter as error.
\<close>

theorem retry_backoff_witness:
  "retry (\<lambda>w::nat. (if w < 2 then Inl w else (Inr (10 * w) :: nat + nat), Suc w))
       default_maxRetries 0 = (Returns 20, [2000, 4000], 3)
   \<and> retry (\<lambda>w::nat. (Inl w :: nat + unit, Suc w)) default_maxRetries 0
       = (Throws 2, [2000, 4000], 3)
   \<and> list_all (\<lambda>k. isl (attempt k (\<lambda>w::nat. (Inl w :: nat + unit, Suc w)) 0)) [0, 1, 2, 3]
   \<and> retry (\<lambda>w::nat. (Inl w :: nat + unit, Suc w)) 4 0 = (Throws 3, [2000, 4000, 8000], 4)"
proof -
  let ?f = "\<lambda>w::nat. (if w < 2 then Inl w else (Inr (10 * w) :: nat + nat), Suc w)"
  let ?g = "\<lambda>w::nat. (Inl w :: nat + unit, Suc w)"
  have after: "world_after k ?g w = w + k" for k w
    by (induction k arbitrary: w) (simp_all add: world_after_def funpow_swap1)
  have att: "attempt k ?g w = Inl (w + k)" for k w
    by (simp add: attempt_def after)
  have a: "retry ?f default_maxRetries 0 = (Returns 20, [2000, 4000], 3)"
    using retry_backoff [where fn = ?f and ?w0.0 = 0 and ?e1.0 = 0 and ?w1.0 = 1
        and ?e2.0 = 1 and ?w2.0 = 2 and v = 20 and ?w3.0 = 3, THEN conjunct1]
    by (simp add: numeral_2_eq_2 numeral_3_eq_3)
  have b: "retry ?g default_maxRetries 0 = (Throws 2, [2000, 4000], 3)"
    using retry_backoff [where fn = ?g and ?w0.0 = 0 and ?e1.0 = 0
        and ?w1.0 = 1 and ?e2.0 = 1 and ?w2.0 = 2 and ?e3.0 = 2 and ?w3.0 = 3,
        THEN conjunct2, THEN conjunct1]
    by (simp add: numeral_2_eq_2 numeral_3_eq_3)
  have h: "\<forall>k<4. isl (attempt k ?g 0)"
    by (simp add: att)
  have c: "retry ?g 4 0 = (Throws 3, [2000, 4000, 8000], 4)"
    using retry_backoff [where fn = ?g and n = 4 and w = 0, THEN conjunct2, THEN conjunct2] h
    by (simp add: att after upt_conv_Cons)
  have h': "list_all (\<lambda>k. isl (attempt k ?g 0)) [0, 1, 2, 3]"
    by (simp add: att)
  from a b h' c show ?thesis by blast
qed

text \<open>
  C10. With \<open>maxRetries\<close> 0 or negative, \<open>retry\<close> returns \<^verbatim>\<open>undefined\<close> without
  a delay and leaves the world as it was, whatever the operation is: the operation
  is never invoked, as its invocation counter shows.
\<close>

theorem retry_no_attempts:
  "maxRetries \<le> 0 \<longrightarrow>
     retry fn maxRetries w = (ReturnsUndefined, [], w)
     \<and> retry (counted fn) maxRetries (w, 0) = (ReturnsUndefined, [], (w, 0))"
  by (simp add: retry_def retry_loop_done)

text \<open>
  The theorem at \<open>maxRetries\<close> 0 and -1, for an operation that always fails.
\<close>

theorem retry_no_attempts_witness:
  "(0::int) \<le> 0
   \<and> retry (counted (\<lambda>w::nat. (Inl w :: nat + unit, Suc w))) 0 (5, 0)
       = (ReturnsUndefined, [], (5, 0))
   \<and> retry (\<lambda>w::nat. (Inl w :: nat + unit, Suc w)) (- 1) 5 = (ReturnsUndefined, [], 5)"
  using retry_no_attempts [of 0 "\<lambda>w::nat. (Inl w :: nat + unit, Suc w)" 5]
        retry_no_attempts [of "- 1" "\<lambda>w::nat. (Inl w :: nat + unit, Suc w)" 5]
  by simp

section \<open>Properties of fetchMeets and syncMeets\<close>

subsection \<open>The fetch\<close>

lemma fetchMeets_Cons:
  "\<exists>d lg. (\<forall>n s t. fetchMeets \<lparr>network = r # n, db = s, trace = t\<rparr>
                      = (Inr d, \<lparr>network = n, db = s, trace = t @ Log Fetching # HttpGet # lg\<rparr>))
          \<and> set lg \<subseteq> {LogError JsonParseError} \<union> range (\<lambda>e. LogError (FetchError e))"
  by (auto simp: fetchMeets_def fetchMeets_try_def emit_def
        split: prod.splits response.splits body.splits option.splits)

lemma fetchMeets_returns: "\<exists>d w'. fetchMeets w = (Inr d, w')"
  by (auto simp: fetchMeets_def Let_def split: prod.splits sum.splits list.splits)

lemma retry_fetchMeets:
  "fetchMeets w = (Inr d, w') \<Longrightarrow> retry fetchMeets default_maxRetries w = (Returns d, [], w')"
  by (simp add: retry_def default_maxRetries_def retry_loop_success)

lemma example_fetched:
  "fetchMeets \<lparr>network = [example_response], db = s, trace = []\<rparr>
     = (Inr (Listings [Some example_listing]),
        \<lparr>network = [], db = s, trace = [Log Fetching, HttpGet]\<rparr>)"
  by (simp add: fetchMeets_def fetchMeets_try_def example_response_def emit_def)

text \<open>
  C1 does not hold of the code. \<open>fetchMeets\<close> catches every failure of its
  request, so it never throws and \<open>retry\<close> never sees a failure: no run of
  \<open>syncMeets\<close> has a backoff. When the request is rejected, or answered with
  status 500, the run makes that one request, logs the error and ``No meets data
  found or API request failed'', and completes normally; the responses that a
  retry would have received stay unread.
\<close>

theorem fetch_failure_not_retried:
  "(\<forall>w. \<exists>d w'. fetchMeets w = (Inr d, w'))
   \<and> (\<forall>w. backoffs (syncMeets w) = [])
   \<and> syncMeets \<lparr>network = Rejected # rest, db = s, trace = t\<rparr>
       = \<lparr>ending = Completed, insertCount = 0, skippedCount = 0, backoffs = [],
          final = \<lparr>network = rest, db = s,
                   trace = t @ [Log Fetching, HttpGet,
                                LogError (FetchError (JsError (js ''Request failed''))),
                                Log NoMeetsData]\<rparr>\<rparr>
   \<and> syncMeets \<lparr>network = Response 500 b # rest, db = s, trace = t\<rparr>
       = \<lparr>ending = Completed, insertCount = 0, skippedCount = 0, backoffs = [],
          final = \<lparr>network = rest, db = s,
                   trace = t @ [Log Fetching, HttpGet,
                                LogError (FetchError (JsError (js ''API request failed with status''))),
                                Log NoMeetsData]\<rparr>\<rparr>"
proof (intro conjI allI)
  fix w
  show "\<exists>d w'. fetchMeets w = (Inr d, w')" by (rule fetchMeets_returns)
  from fetchMeets_returns obtain d w' where f: "fetchMeets w = (Inr d, w')" by blast
  show "backoffs (syncMeets w) = []"
    by (simp add: syncMeets_def retry_fetchMeets [OF f] Let_def split: payload.splits sum.splits prod.splits)
next
  have f: "fetchMeets \<lparr>network = Rejected # rest, db = s, trace = t\<rparr>
      = (Inr (Listings []), \<lparr>network = rest, db = s,
           trace = t @ [Log Fetching, HttpGet, LogError (FetchError (JsError (js ''Request failed'')))]\<rparr>)"
    by (simp add: fetchMeets_def fetchMeets_try_def emit_def)
  show "syncMeets \<lparr>network = Rejected # rest, db = s, trace = t\<rparr>
       = \<lparr>ending = Completed, insertCount = 0, skippedCount = 0, backoffs = [],
          final = \<lparr>network = rest, db = s,
                   trace = t @ [Log Fetching, HttpGet,
                                LogError (FetchError (JsError (js ''Request failed''))),
                                Log NoMeetsData]\<rparr>\<rparr>"
    by (simp add: syncMeets_def retry_fetchMeets [OF f] emit_def)
next
  have f: "fetchMeets \<lparr>network = Response 500 b # rest, db = s, trace = t\<rparr>
      = (Inr (Listings []), \<lparr>network = rest, db = s,
           trace = t @ [Log Fetching, HttpGet, LogError (FetchError (JsError (js ''API request failed with status'')))]\<rparr>)"
    by (simp add: fetchMeets_def fetchMeets_try_def emit_def)
  show "syncMeets \<lparr>network = Response 500 b # rest, db = s, trace = t\<rparr>
       = \<lparr>ending = Completed, insertCount = 0, skippedCount = 0, backoffs = [],
          final = \<lparr>network = rest, db = s,
                   trace = t @ [Log Fetching, HttpGet,
                                LogError (FetchError (JsError (js ''API request failed with status''))),
                                Log NoMeetsData]\<rparr>\<rparr>"
    by (simp add: syncMeets_def retry_fetchMeets [OF f] emit_def)
qed

text \<open>
  The theorem at a network whose second response would have carried the example
  listing.
\<close>

theorem fetch_failure_not_retried_witness:
  "ending (syncMeets \<lparr>network = [Rejected, example_response], db = empty_store, trace = []\<rparr>)
     = Completed
   \<and> backoffs (syncMeets \<lparr>network = [Rejected, example_response], db = empty_store, trace = []\<rparr>)
     = []
   \<and> queried (trace (final (syncMeets \<lparr>network = [Rejected, example_response], db = empty_store,
                                       trace = []\<rparr>))) = []
   \<and> network (final (syncMeets \<lparr>network = [Rejected, example_response], db = empty_store,
                                 trace = []\<rparr>)) = [example_response]"
  using fetch_failure_not_retried [of "[example_response]" empty_store "[]"]
  by simp

subsection \<open>The loop over the records\<close>

lemma queried_append: "queried (xs @ ys) = queried xs @ queried ys"
  by (induction xs rule: queried.induct) auto

lemma sync_one_trace:
  "sync_one m (i, k, w) = (i', k', w') \<Longrightarrow>
     (\<exists>es. trace w' = trace w @ es \<and> queried es = [name m])
     \<and> name ` set (rows (db w)) \<subseteq> name ` set (rows (db w'))
     \<and> set (query_faults (db w')) \<subseteq> set (query_faults (db w))
     \<and> network w' = network w"
  by (auto simp: sync_one_def meetExists_def select_by_name_def insert_row_def next_fault_def
        emit_def Let_def split: prod.splits list.splits reply.splits if_splits)

lemma sync_loop_trace:
  "sync_loop ms (i, k, w) = (i', k', w') \<Longrightarrow>
     (\<exists>es. trace w' = trace w @ es \<and> queried es = map name ms)
     \<and> name ` set (rows (db w)) \<subseteq> name ` set (rows (db w'))
     \<and> set (query_faults (db w')) \<subseteq> set (query_faults (db w))
     \<and> network w' = network w"
proof (induction ms arbitrary: i k w)
  case Nil
  then show ?case by simp
next
  case (Cons m ms)
  obtain i1 k1 w1 where one: "sync_one m (i, k, w) = (i1, k1, w1)"
    by (cases "sync_one m (i, k, w)") auto
  with Cons.prems have rest: "sync_loop ms (i1, k1, w1) = (i', k', w')" by simp
  from sync_one_trace [OF one] Cons.IH [OF rest] show ?case
    by (auto simp: queried_append)
qed

lemma sync_loop_append:
  "sync_loop (xs @ ys) st = sync_loop ys (sync_loop xs st)"
  by (induction xs arbitrary: st) auto

lemma strip_external_id_fields:
  "strip_external_id meet =
     \<lparr>name = name meet, venue_name = venue_name meet, venue_street = venue_street meet,
      venue_city = venue_city meet, venue_state = venue_state meet, venue_zip = venue_zip meet,
      time_zone = time_zone meet, start_date = start_date meet, end_date = end_date meet,
      status = status meet\<rparr>"
  by (simp add: strip_external_id_def meet_row.truncate_def)

lemma name_strip_external_id: "name (strip_external_id m) = name m"
  by (simp add: strip_external_id_fields)

lemma sync_one_query_failure:
  assumes "fst (select_by_name (name meet) (db w)) = Failure"
  shows "\<exists>i' w' ev. sync_one meet (i, k, w) = (i', k, w')
           \<and> trace w' = trace w @ [Select (name meet), LogError (ExistsQueryError (name meet)),
                                    Insert (strip_external_id meet), ev, Timer 500]
           \<and> (i' = i \<and> ev = LogError (InsertError (name meet))
               \<or> i' = Suc i \<and> ev = Log (Inserted (name meet)))"
  using assms
  by (auto simp: sync_one_def meetExists_def emit_def Let_def split: prod.splits reply.splits)

lemmas loop_defs =
  sync_one_def meetExists_def select_by_name_def insert_row_def next_fault_def emit_def Let_def
  name_strip_external_id

text \<open>
  C9. When the loop reaches a record and the existence query for its name fails,
  the failure is logged and the insert is requested next, with the row that has
  every field of the record but \<open>external_id\<close>; the record is counted as inserted
  or its insert failure is logged, never as skipped; and the loop goes on: the
  records after it are each queried for in turn.
\<close>

theorem query_failure_still_inserts:
  assumes "sync_loop before st0 = (i, k, w)"
      and "fst (select_by_name (name meet) (db w)) = Failure"
  shows "\<exists>i' w' ev. sync_one meet (i, k, w) = (i', k, w')
           \<and> trace w' = trace w @ [Select (name meet), LogError (ExistsQueryError (name meet)),
                                    Insert (strip_external_id meet), ev, Timer 500]
           \<and> (i' = i \<and> ev = LogError (InsertError (name meet))
               \<or> i' = Suc i \<and> ev = Log (Inserted (name meet)))
           \<and> strip_external_id meet =
               \<lparr>name = name meet, venue_name = venue_name meet,
                venue_street = venue_street meet, venue_city = venue_city meet,
                venue_state = venue_state meet, venue_zip = venue_zip meet,
                time_zone = time_zone meet, start_date = start_date meet,
                end_date = end_date meet, status = status meet\<rparr>
           \<and> sync_loop (before @ meet # rest) st0 = sync_loop rest (i', k, w')
           \<and> queried (trace (snd (snd (sync_loop (before @ meet # rest) st0))))
               = queried (trace w) @ name meet # map name rest"
proof -
  from sync_one_query_failure [OF assms(2), of i k]
  obtain i' w' ev where one: "sync_one meet (i, k, w) = (i', k, w')"
    and tr: "trace w' = trace w @ [Select (name meet), LogError (ExistsQueryError (name meet)),
                                    Insert (strip_external_id meet), ev, Timer 500]"
    and ev: "i' = i \<and> ev = LogError (InsertError (name meet))
               \<or> i' = Suc i \<and> ev = Log (Inserted (name meet))"
    by blast
  have loop: "sync_loop (before @ meet # rest) st0 = sync_loop rest (i', k, w')"
    by (simp add: sync_loop_append assms(1) one)
  obtain i2 k2 w2 where fin: "sync_loop rest (i', k, w') = (i2, k2, w2)"
    by (cases "sync_loop rest (i', k, w')") auto
  from sync_loop_trace [OF fin] tr ev
  have "queried (trace w2) = queried (trace w) @ name meet # map name rest"
    by (auto simp: queried_append)
  with one tr ev loop fin show ?thesis
    by (simp add: strip_external_id_fields)
qed

text \<open>
  The theorem at the record of the example listing, first in the loop, with a
  store whose next query fails.
\<close>

theorem query_failure_still_inserts_witness:
  "sync_loop [] (0, 0, \<lparr>network = [], db = empty_store\<lparr>query_faults := [True]\<rparr>, trace = []\<rparr>)
     = (0, 0, \<lparr>network = [], db = empty_store\<lparr>query_faults := [True]\<rparr>, trace = []\<rparr>)
   \<and> fst (select_by_name (name (transformMeet example_listing))
             (empty_store\<lparr>query_faults := [True]\<rparr>)) = Failure
   \<and> sync_loop [transformMeet example_listing]
        (0, 0, \<lparr>network = [], db = empty_store\<lparr>query_faults := [True]\<rparr>, trace = []\<rparr>)
     = (1, 0, \<lparr>network = [],
               db = \<lparr>rows = [strip_external_id (transformMeet example_listing)],
                     query_faults = [], insert_faults = []\<rparr>,
               trace = [Select (JString (js ''Spring Open'')),
                        LogError (ExistsQueryError (JString (js ''Spring Open''))),
                        Insert (strip_external_id (transformMeet example_listing)),
                        Log (Inserted (JString (js ''Spring Open''))), Timer 500]\<rparr>)"
proof -
  let ?w = "\<lparr>network = [], db = empty_store\<lparr>query_faults := [True]\<rparr>, trace = []\<rparr>"
  have h1: "sync_loop [] (0, 0, ?w) = (0, 0, ?w)" by simp
  have h2: "fst (select_by_name (name (transformMeet example_listing)) (db ?w)) = Failure"
    by (simp add: select_by_name_def next_fault_def empty_store_def)
  have nm: "name (transformMeet example_listing) = JString (js ''Spring Open'')"
    by (simp add: transformMeet_fields example_listing_def)
  from query_failure_still_inserts [OF h1 h2, of "[]"]
  obtain i' w' ev where
    one: "sync_one (transformMeet example_listing) (0, 0, ?w) = (i', 0, w')"
    and tr: "trace w' = trace ?w @ [Select (name (transformMeet example_listing)),
                LogError (ExistsQueryError (name (transformMeet example_listing))),
                Insert (strip_external_id (transformMeet example_listing)), ev, Timer 500]"
    by blast
  have "sync_one (transformMeet example_listing) (0, 0, ?w)
     = (1, 0, \<lparr>network = [],
               db = \<lparr>rows = [strip_external_id (transformMeet example_listing)],
                     query_faults = [], insert_faults = []\<rparr>,
               trace = [Select (JString (js ''Spring Open'')),
                        LogError (ExistsQueryError (JString (js ''Spring Open''))),
                        Insert (strip_external_id (transformMeet example_listing)),
                        Log (Inserted (JString (js ''Spring Open''))), Timer 500]\<rparr>)"
    by (simp add: loop_defs empty_store_def nm)
  with h1 h2 one show ?thesis by simp
qed

subsection \<open>Running twice\<close>

lemma take1_filter_nonempty:
  "(0 < length (take (Suc 0) (filter P xs))) = (\<exists>x\<in>set xs. P x)"
  by (cases "filter P xs") (auto simp: filter_empty_conv filter_eq_Cons_iff)

lemma select_by_name_ok:
  "True \<notin> set (query_faults s) \<Longrightarrow>
     \<exists>s'. select_by_name n s = (Data (take 1 (filter (\<lambda>r. name r = n) (rows s))), s')
          \<and> rows s' = rows s \<and> insert_faults s' = insert_faults s"
  by (cases "query_faults s") (auto simp: select_by_name_def next_fault_def)

lemma sync_one_found:
  assumes "True \<notin> set (query_faults (db w))" and "name m \<in> name ` set (rows (db w))"
  shows "\<exists>w'. sync_one m (i, k, w) = (i, Suc k, w') \<and> rows (db w') = rows (db w)
            \<and> trace w' = trace w @ [Select (name m), Log (AlreadyExists (name m))]"
proof -
  from select_by_name_ok [OF assms(1), of "name m"] obtain s' where
    s': "select_by_name (name m) (db w) = (Data (take 1 (filter (\<lambda>r. name r = name m) (rows (db w)))), s')"
       "rows s' = rows (db w)"
    by blast
  from assms(2) have "0 < length (take (Suc 0) (filter (\<lambda>r. name r = name m) (rows (db w))))"
    unfolding take1_filter_nonempty by auto
  with s' show ?thesis
    by (simp add: sync_one_def meetExists_def emit_def)
qed

lemma sync_one_new:
  assumes "sync_one m (i, k, w) = (i', k', w')"
  shows "name m \<in> name ` set (rows (db w')) \<or> LogError (InsertError (name m)) \<in> set (trace w')
         \<or> True \<in> set (query_faults (db w))"
proof (cases "True \<in> set (query_faults (db w))")
  case True
  then show ?thesis by simp
next
  case False
  from select_by_name_ok [OF False, of "name m"] obtain s' where
    s': "select_by_name (name m) (db w) = (Data (take 1 (filter (\<lambda>r. name r = name m) (rows (db w)))), s')"
       "rows s' = rows (db w)"
    by blast
  show ?thesis
  proof (cases "name m \<in> name ` set (rows (db w))")
    case present: True
    from sync_one_found [OF False present, of i k] assms present show ?thesis by auto
  next
    case absent: False
    then have "\<not> (\<exists>r\<in>set (rows (db w)). name r = name m)"
      by (metis imageI)
    then have "\<not> 0 < length (take (Suc 0) (filter (\<lambda>r. name r = name m) (rows (db w))))"
      unfolding take1_filter_nonempty .
    with s' assms show ?thesis
      by (auto simp: sync_one_def meetExists_def emit_def insert_row_def Let_def name_strip_external_id
            split: prod.splits reply.splits if_splits)
  qed
qed

lemma sync_loop_stores_all:
  assumes "True \<notin> set (query_faults (db w))"
      and "sync_loop ms (i, k, w) = (i', k', w')"
      and "\<forall>n. LogError (InsertError n) \<notin> set (trace w')"
  shows "name ` set ms \<subseteq> name ` set (rows (db w'))"
  using assms
proof (induction ms arbitrary: i k w)
  case Nil
  then show ?case by simp
next
  case (Cons m ms)
  obtain i1 k1 w1 where one: "sync_one m (i, k, w) = (i1, k1, w1)"
    by (cases "sync_one m (i, k, w)") auto
  with Cons.prems have rest: "sync_loop ms (i1, k1, w1) = (i', k', w')" by simp
  from sync_one_trace [OF one] Cons.prems(1) have q1: "True \<notin> set (query_faults (db w1))"
    by auto
  from sync_loop_trace [OF rest] obtain es where
    mono: "trace w' = trace w1 @ es" "name ` set (rows (db w1)) \<subseteq> name ` set (rows (db w'))"
    by blast
  from mono(1) Cons.prems(3) have "LogError (InsertError (name m)) \<notin> set (trace w1)"
    by auto
  with sync_one_new [OF one] Cons.prems(1) have "name m \<in> name ` set (rows (db w1))"
    by blast
  with mono(2) Cons.IH [OF q1 rest Cons.prems(3)] show ?case by auto
qed

lemma sync_loop_skips_all:
  assumes "True \<notin> set (query_faults (db w))"
      and "name ` set ms \<subseteq> name ` set (rows (db w))"
  shows "\<exists>w'. sync_loop ms (i, k, w) = (i, k + length ms, w') \<and> rows (db w') = rows (db w)
            \<and> trace w' = trace w @ concat (map (\<lambda>m. [Select (name m), Log (AlreadyExists (name m))]) ms)"
  using assms
proof (induction ms arbitrary: k w)
  case Nil
  then show ?case by simp
next
  case (Cons m ms)
  from Cons.prems(2) have here: "name m \<in> name ` set (rows (db w))" by simp
  from sync_one_found [OF Cons.prems(1) here, of i k] obtain w1 where
    one: "sync_one m (i, k, w) = (i, Suc k, w1)" "rows (db w1) = rows (db w)"
         "trace w1 = trace w @ [Select (name m), Log (AlreadyExists (name m))]"
    by blast
  from sync_one_trace [OF one(1)] Cons.prems(1) have q1: "True \<notin> set (query_faults (db w1))"
    by auto
  from Cons.prems(2) one(2) have "name ` set ms \<subseteq> name ` set (rows (db w1))" by simp
  from Cons.IH [OF q1 this, of "Suc k"] one show ?case by auto
qed

lemma syncMeets_loop:
  assumes "fetchMeets w = (Inr (Listings ls), w1)" and "ls \<noteq> []"
      and "transformMeetsData ls = Inr ms"
      and "sync_loop ms (0, 0, emit [Log (Processed (length ms))]
                                 (emit [Log (Fetched (Listings ls))] w1)) = (i, k, w3)"
  shows "syncMeets w = \<lparr>ending = Completed, insertCount = i, skippedCount = k, backoffs = [],
                        final = emit [Log (SyncCompleted (length ms) i k)] w3\<rparr>"
  using assms(2-4) by (simp add: syncMeets_def retry_fetchMeets [OF assms(1)])

lemma syncMeets_no_loop:
  assumes "fetchMeets w = (Inr d, w1)"
      and "\<not> (\<exists>ls ms. d = Listings ls \<and> ls \<noteq> [] \<and> transformMeetsData ls = Inr ms)"
  shows "insertCount (syncMeets w) = 0 \<and> skippedCount (syncMeets w) = 0
         \<and> db (final (syncMeets w)) = db w1
         \<and> (\<exists>es. trace (final (syncMeets w)) = trace w1 @ es \<and> set es \<subseteq> range Log \<union> range LogError)"
  using assms(2)
  by (cases d; cases "transformMeetsData (case d of Listings ls \<Rightarrow> ls | _ \<Rightarrow> [])")
     (auto simp: syncMeets_def retry_fetchMeets [OF assms(1)] emit_def Let_def)

text \<open>
  C8, amended. Take two runs that receive the same upstream response, the second
  on the store the first left, where no existence query fails. If the first run
  logged no insert failure, the second run requests no insert and counts none,
  leaves the rows as they were, and finds every record of the transformation
  present by name, counting each as skipped.
\<close>

theorem second_run_skips_all:
  assumes q: "True \<notin> set (query_faults s0)"
      and r1: "r1 = syncMeets \<lparr>network = resp # n1, db = s0, trace = []\<rparr>"
      and ok: "\<forall>n. LogError (InsertError n) \<notin> set (trace (final r1))"
      and r2: "r2 = syncMeets \<lparr>network = resp # n2, db = db (final r1), trace = []\<rparr>"
  shows "insertCount r2 = 0
       \<and> (\<forall>row. Insert row \<notin> set (trace (final r2)))
       \<and> rows (db (final r2)) = rows (db (final r1))
       \<and> (\<forall>ls ms. fst (fetchMeets \<lparr>network = [resp], db = s0, trace = []\<rparr>) = Inr (Listings ls)
                  \<and> transformMeetsData ls = Inr ms \<longrightarrow>
            skippedCount r2 = length ms
            \<and> (\<forall>m\<in>set ms. Log (AlreadyExists (name m)) \<in> set (trace (final r2))))"
proof -
  from fetchMeets_Cons [of resp] obtain d lg where
    f: "\<And>n s t. fetchMeets \<lparr>network = resp # n, db = s, trace = t\<rparr>
           = (Inr d, \<lparr>network = n, db = s, trace = t @ Log Fetching # HttpGet # lg\<rparr>)"
    and lg: "set lg \<subseteq> {LogError JsonParseError} \<union> range (\<lambda>e. LogError (FetchError e))"
    by blast
  define w1 where "w1 = \<lparr>network = n1, db = s0, trace = [] @ Log Fetching # HttpGet # lg\<rparr>"
  define w1' where "w1' = \<lparr>network = n2, db = db (final r1), trace = [] @ Log Fetching # HttpGet # lg\<rparr>"
  have f1: "fetchMeets \<lparr>network = resp # n1, db = s0, trace = []\<rparr> = (Inr d, w1)"
    unfolding w1_def by (rule f)
  have f2: "fetchMeets \<lparr>network = resp # n2, db = db (final r1), trace = []\<rparr> = (Inr d, w1')"
    unfolding w1'_def by (rule f)
  have f0: "fst (fetchMeets \<lparr>network = [resp], db = s0, trace = []\<rparr>) = Inr d"
    by (simp add: f)
  have no_insert: "\<And>row. Insert row \<notin> set (trace w1')"
    using lg by (auto simp: w1'_def)
  show ?thesis
  proof (cases "\<exists>ls ms. d = Listings ls \<and> ls \<noteq> [] \<and> transformMeetsData ls = Inr ms")
    case True
    then obtain ls ms where d: "d = Listings ls" "ls \<noteq> []" "transformMeetsData ls = Inr ms"
      by blast
    define start1 where "start1 = emit [Log (Processed (length ms))] (emit [Log (Fetched (Listings ls))] w1)"
    define start2 where "start2 = emit [Log (Processed (length ms))] (emit [Log (Fetched (Listings ls))] w1')"
    obtain i k w3 where loop1: "sync_loop ms (0, 0, start1) = (i, k, w3)"
      by (cases "sync_loop ms (0, 0, start1)") auto
    have run1: "r1 = \<lparr>ending = Completed, insertCount = i, skippedCount = k, backoffs = [],
                      final = emit [Log (SyncCompleted (length ms) i k)] w3\<rparr>"
      unfolding r1 using syncMeets_loop [OF f1 [unfolded d(1)] d(2,3) loop1 [unfolded start1_def]] .
    have q1: "True \<notin> set (query_faults (db start1))"
      using q by (simp add: start1_def emit_def w1_def)
    from ok run1 have ok3: "\<forall>n. LogError (InsertError n) \<notin> set (trace w3)"
      by (simp add: emit_def)
    from sync_loop_stores_all [OF q1 loop1 ok3]
    have stored: "name ` set ms \<subseteq> name ` set (rows (db w3))" .
    from sync_loop_trace [OF loop1] q1 have q3: "True \<notin> set (query_faults (db w3))"
      by auto
    have db2: "db start2 = db w3"
      by (simp add: start2_def emit_def w1'_def run1)
    from sync_loop_skips_all [of start2 ms 0 0] q3 stored db2
    obtain w4 where loop2: "sync_loop ms (0, 0, start2) = (0, length ms, w4)"
      and rows4: "rows (db w4) = rows (db w3)"
      and trace4: "trace w4 = trace start2
                     @ concat (map (\<lambda>m. [Select (name m), Log (AlreadyExists (name m))]) ms)"
      by auto
    have run2: "r2 = \<lparr>ending = Completed, insertCount = 0, skippedCount = length ms, backoffs = [],
                      final = emit [Log (SyncCompleted (length ms) 0 (length ms))] w4\<rparr>"
      unfolding r2 using syncMeets_loop [OF f2 [unfolded d(1)] d(2,3) loop2 [unfolded start2_def]] .
    have t2: "trace (final r2) = trace w1' @ [Log (Fetched (Listings ls)), Log (Processed (length ms))]
                @ concat (map (\<lambda>m. [Select (name m), Log (AlreadyExists (name m))]) ms)
                @ [Log (SyncCompleted (length ms) 0 (length ms))]"
      by (simp add: run2 trace4 start2_def emit_def)
    have c1: "insertCount r2 = 0" by (simp add: run2)
    have c2: "\<forall>row. Insert row \<notin> set (trace (final r2))"
      using no_insert by (auto simp: t2)
    have c3: "rows (db (final r2)) = rows (db (final r1))"
      by (simp add: run2 run1 emit_def rows4)
    have c4: "\<forall>ls' ms'. fst (fetchMeets \<lparr>network = [resp], db = s0, trace = []\<rparr>) = Inr (Listings ls')
                  \<and> transformMeetsData ls' = Inr ms' \<longrightarrow>
            skippedCount r2 = length ms'
            \<and> (\<forall>m\<in>set ms'. Log (AlreadyExists (name m)) \<in> set (trace (final r2)))"
    proof (intro allI impI)
      fix ls' ms'
      assume a: "fst (fetchMeets \<lparr>network = [resp], db = s0, trace = []\<rparr>) = Inr (Listings ls')
                  \<and> transformMeetsData ls' = Inr ms'"
      with f0 d have same: "ls' = ls" "ms' = ms" by auto
      have "skippedCount r2 = length ms" by (simp add: run2)
      moreover have "\<forall>m\<in>set ms. Log (AlreadyExists (name m)) \<in> set (trace (final r2))"
        unfolding t2 by auto
      ultimately show "skippedCount r2 = length ms'
            \<and> (\<forall>m\<in>set ms'. Log (AlreadyExists (name m)) \<in> set (trace (final r2)))"
        using same by simp
    qed
    from c1 c2 c3 c4 show ?thesis by blast
  next
    case False
    from syncMeets_no_loop [OF f2 False] r2 obtain es where
      n2: "insertCount r2 = 0" "skippedCount r2 = 0" "db (final r2) = db w1'"
          "trace (final r2) = trace w1' @ es" "set es \<subseteq> range Log \<union> range LogError"
      by auto
    have c2: "\<forall>row. Insert row \<notin> set (trace (final r2))"
      using no_insert n2(4,5) by auto
    have c3: "rows (db (final r2)) = rows (db (final r1))"
      by (simp add: n2(3) w1'_def)
    have c4: "\<forall>ls' ms'. fst (fetchMeets \<lparr>network = [resp], db = s0, trace = []\<rparr>) = Inr (Listings ls')
                  \<and> transformMeetsData ls' = Inr ms' \<longrightarrow>
            skippedCount r2 = length ms'
            \<and> (\<forall>m\<in>set ms'. Log (AlreadyExists (name m)) \<in> set (trace (final r2)))"
    proof (intro allI impI)
      fix ls' ms'
      assume a: "fst (fetchMeets \<lparr>network = [resp], db = s0, trace = []\<rparr>) = Inr (Listings ls')
                  \<and> transformMeetsData ls' = Inr ms'"
      with f0 False have "ls' = []" by auto
      with a have "ms' = []" by (simp add: transformMeetsData_def)
      then show "skippedCount r2 = length ms'
            \<and> (\<forall>m\<in>set ms'. Log (AlreadyExists (name m)) \<in> set (trace (final r2)))"
        by (simp add: n2(2))
    qed
    from n2(1) c2 c3 c4 show ?thesis by blast
  qed
qed

text \<open>
  The theorem at the example response and the empty store: the first run inserts
  the record, the second skips it.
\<close>

theorem second_run_skips_all_witness:
  "True \<notin> set (query_faults empty_store)
   \<and> (\<forall>n. LogError (InsertError n)
            \<notin> set (trace (final (syncMeets \<lparr>network = [example_response], db = empty_store, trace = []\<rparr>))))
   \<and> insertCount (syncMeets \<lparr>network = [example_response], db = empty_store, trace = []\<rparr>) = 1
   \<and> insertCount
       (syncMeets
          \<lparr>network = [example_response],
           db = db (final (syncMeets \<lparr>network = [example_response], db = empty_store, trace = []\<rparr>)),
           trace = []\<rparr>) = 0
   \<and> skippedCount
       (syncMeets
          \<lparr>network = [example_response],
           db = db (final (syncMeets \<lparr>network = [example_response], db = empty_store, trace = []\<rparr>)),
           trace = []\<rparr>) = 1"
proof -
  have q: "True \<notin> set (query_faults empty_store)"
    by (simp add: empty_store_def)
  have ok: "\<forall>n. LogError (InsertError n)
            \<notin> set (trace (final (syncMeets \<lparr>network = [example_response], db = empty_store, trace = []\<rparr>)))"
    by (simp add: syncMeets_def retry_fetchMeets [OF example_fetched] example_transformed
          empty_store_def loop_defs)
  have first: "insertCount (syncMeets \<lparr>network = [example_response], db = empty_store, trace = []\<rparr>) = 1"
    by (simp add: syncMeets_def retry_fetchMeets [OF example_fetched] example_transformed
          empty_store_def loop_defs)
  have fetched: "fst (fetchMeets \<lparr>network = [example_response], db = empty_store, trace = []\<rparr>)
                   = Inr (Listings [Some example_listing])"
    by (simp add: example_fetched)
  from second_run_skips_all [OF q refl ok refl, of "[]"] fetched example_transformed
  have "insertCount
       (syncMeets
          \<lparr>network = [example_response],
           db = db (final (syncMeets \<lparr>network = [example_response], db = empty_store, trace = []\<rparr>)),
           trace = []\<rparr>) = 0
   \<and> skippedCount
       (syncMeets
          \<lparr>network = [example_response],
           db = db (final (syncMeets \<lparr>network = [example_response], db = empty_store, trace = []\<rparr>)),
           trace = []\<rparr>) = 1"
    by fastforce
  with q ok first show ?thesis by blast
qed

text \<open>
  Without the condition on the first run the second run does insert: when the
  store fails the first run's insert, no query failing, the record is not stored,
  and the second run inserts it.
\<close>

theorem failed_insert_repeated:
  "True \<notin> set (query_faults (empty_store\<lparr>insert_faults := [True]\<rparr>))
   \<and> insertCount (syncMeets \<lparr>network = [example_response], db = empty_store\<lparr>insert_faults := [True]\<rparr>, trace = []\<rparr>) = 0
   \<and> insertCount
       (syncMeets
          \<lparr>network = [example_response],
           db = db (final (syncMeets \<lparr>network = [example_response],
                                       db = empty_store\<lparr>insert_faults := [True]\<rparr>, trace = []\<rparr>)),
           trace = []\<rparr>) = 1"
  by (simp add: syncMeets_def retry_fetchMeets [OF example_fetched] example_transformed
        empty_store_def loop_defs)

end
